theory Spec2Isabelle
  imports Main "HOL-Library.Sublist"
begin

section \<open>Python values and the library functions the script calls\<close>

text \<open>
  The script \<^verbatim>\<open>refresh_token_generator_for_google_oauth.py\<close> is a sequence of console
  reads and writes around one \<^verbatim>\<open>curl\<close> subprocess per operation. Text is modelled as
  \<open>string\<close>: a character of a Python \<^verbatim>\<open>str\<close> is a code point below 256, a character of a
  \<^verbatim>\<open>bytes\<close> value is a byte. A function of the script is a function from the state of
  the console to a result and the new state; an exception that leaves it is the result
  \<open>Inl\<close>. Standard error is not recorded.
\<close>

text \<open>The exceptions that can leave a function of the script.\<close>

datatype pyerror =
    SystemExit int
  | ValueError string
  | JSONDecodeError
  | TypeError
  | KeyError
  | EOFError
  | OSError

text \<open>
  What \<^verbatim>\<open>json.loads\<close> returns. An object is the list of the items of the resulting
  \<^verbatim>\<open>dict\<close>, in insertion order; a float is kept as the literal it was read from.
\<close>

datatype json =
    JNull
  | JBool bool
  | JInt int
  | JFloat string
  | JString string
  | JArray "json list"
  | JObject "(string \<times> json) list"

subsection \<open>\<^verbatim>\<open>str.strip\<close> and \<^verbatim>\<open>str.split\<close>\<close>

definition is_space :: "char \<Rightarrow> bool" where
  "is_space c =
     (let n = (of_char c :: nat)
      in (9 \<le> n \<and> n \<le> 13) \<or> (28 \<le> n \<and> n \<le> 32) \<or> n = 133 \<or> n = 160)"

definition strip :: "string \<Rightarrow> string" where
  "strip s = rev (dropWhile is_space (rev (dropWhile is_space s)))"

text \<open>\<^verbatim>\<open>s.split(sep)\<close> for a one-character separator: never the empty list.\<close>

fun split_on :: "char \<Rightarrow> string \<Rightarrow> string list" where
  "split_on sep [] = [[]]"
| "split_on sep (c # cs) =
     (if c = sep then [] # split_on sep cs
      else (case split_on sep cs of
              [] \<Rightarrow> [[c]]
            | f # fs \<Rightarrow> (c # f) # fs))"

subsection \<open>\<^verbatim>\<open>repr\<close> and \<^verbatim>\<open>str\<close>\<close>

definition hex_digit :: "nat \<Rightarrow> char" where
  "hex_digit n = ''0123456789abcdef'' ! (n mod 16)"

definition hex_escape :: "char \<Rightarrow> string" where
  "hex_escape c =
     [CHR 0x5C, CHR ''x'', hex_digit (of_char c div 16), hex_digit (of_char c)]"

text \<open>Both reprs quote with \<^verbatim>\<open>'\<close> unless the text has a \<^verbatim>\<open>'\<close> and no \<^verbatim>\<open>"\<close>.\<close>

definition quote_for :: "string \<Rightarrow> char" where
  "quote_for s = (if CHR 0x27 \<in> set s \<and> CHR 0x22 \<notin> set s then CHR 0x22 else CHR 0x27)"

definition escape_common :: "char \<Rightarrow> char \<Rightarrow> string option" where
  "escape_common q c =
     (if c = q \<or> c = CHR 0x5C then Some [CHR 0x5C, c]
      else if c = CHR 0x09 then Some [CHR 0x5C, CHR ''t'']
      else if c = CHR 0x0A then Some [CHR 0x5C, CHR ''n'']
      else if c = CHR 0x0D then Some [CHR 0x5C, CHR ''r'']
      else None)"

text \<open>\<^verbatim>\<open>repr\<close> of \<^verbatim>\<open>bytes\<close>: every byte outside printable ASCII is escaped.\<close>

definition bytes_escape :: "char \<Rightarrow> char \<Rightarrow> string" where
  "bytes_escape q c =
     (case escape_common q c of
        Some e \<Rightarrow> e
      | None \<Rightarrow> if (of_char c :: nat) < 32 \<or> 127 \<le> (of_char c :: nat) then hex_escape c else [c])"

definition bytes_repr :: "string \<Rightarrow> string" where
  "bytes_repr s =
     (let q = quote_for s in CHR ''b'' # q # concat (map (bytes_escape q) s) @ [q])"

text \<open>
  \<^verbatim>\<open>repr\<close> of \<^verbatim>\<open>str\<close>: below 256 the code points that are not printable are the
  control characters, \<^verbatim>\<open>0x7f\<close> to \<^verbatim>\<open>0xa0\<close> and \<^verbatim>\<open>0xad\<close>.
\<close>

definition is_printable :: "char \<Rightarrow> bool" where
  "is_printable c =
     (let n = (of_char c :: nat) in 32 \<le> n \<and> \<not> (127 \<le> n \<and> n \<le> 160) \<and> n \<noteq> 173)"

definition str_escape :: "char \<Rightarrow> char \<Rightarrow> string" where
  "str_escape q c =
     (case escape_common q c of
        Some e \<Rightarrow> e
      | None \<Rightarrow> if is_printable c then [c] else hex_escape c)"

definition str_repr :: "string \<Rightarrow> string" where
  "str_repr s = (let q = quote_for s in q # concat (map (str_escape q) s) @ [q])"

fun join :: "string \<Rightarrow> string list \<Rightarrow> string" where
  "join sep [] = []"
| "join sep [x] = x"
| "join sep (x # y # ys) = x @ sep @ join sep (y # ys)"

text \<open>\<^verbatim>\<open>str(cmd)\<close> for a list of strings.\<close>

definition list_repr :: "string list \<Rightarrow> string" where
  "list_repr xs = ''['' @ join '', '' (map str_repr xs) @ '']''"

function string_of_nat :: "nat \<Rightarrow> string" where
  "string_of_nat n =
     (if n < 10 then [char_of (48 + n)]
      else string_of_nat (n div 10) @ [char_of (48 + n mod 10)])"
  by pat_completeness auto
termination
  by (relation "measure id") auto

definition string_of_int :: "int \<Rightarrow> string" where
  "string_of_int i = (if i < 0 then CHR ''-'' # string_of_nat (nat (- i)) else string_of_nat (nat i))"

text \<open>
  \<^verbatim>\<open>repr\<close> of a decoded JSON value. The first argument is Python's \<^verbatim>\<open>repr\<close> of the float
  that a literal denotes, which is not modelled.
\<close>

fun py_repr :: "(string \<Rightarrow> string) \<Rightarrow> json \<Rightarrow> string" where
  "py_repr fr JNull = ''None''"
| "py_repr fr (JBool b) = (if b then ''True'' else ''False'')"
| "py_repr fr (JInt i) = string_of_int i"
| "py_repr fr (JFloat l) = fr l"
| "py_repr fr (JString s) = str_repr s"
| "py_repr fr (JArray xs) = ''['' @ join '', '' (map (py_repr fr) xs) @ '']''"
| "py_repr fr (JObject kvs) =
     ''{'' @ join '', '' (map (\<lambda>kv. str_repr (fst kv) @ '': '' @ py_repr fr (snd kv)) kvs) @ ''}''"

definition py_str :: "(string \<Rightarrow> string) \<Rightarrow> json \<Rightarrow> string" where
  "py_str fr j = (case j of JString s \<Rightarrow> s | _ \<Rightarrow> py_repr fr j)"

subsection \<open>\<^verbatim>\<open>in\<close> and subscription on a decoded JSON value\<close>

fun py_contains :: "string \<Rightarrow> json \<Rightarrow> pyerror + bool" where
  "py_contains k (JObject kvs) = Inr (k \<in> set (map fst kvs))"
| "py_contains k (JArray xs) = Inr (JString k \<in> set xs)"
| "py_contains k (JString s) = Inr (sublist k s)"
| "py_contains k j = Inl TypeError"

fun py_getitem :: "json \<Rightarrow> string \<Rightarrow> pyerror + json" where
  "py_getitem (JObject kvs) k = (case map_of kvs k of Some v \<Rightarrow> Inr v | None \<Rightarrow> Inl KeyError)"
| "py_getitem j k = Inl TypeError"

section \<open>The outside of the process\<close>

text \<open>
  What the script reads from its surroundings and never changes: the environment, what
  running a command gives (the bytes of its standard output, or the exception
  \<^verbatim>\<open>subprocess.Popen\<close> raises), the JSON library, and the rendering of the float that
  a literal denotes (floating point is not modelled).
\<close>

record host =
  environ :: "string \<rightharpoonup> string"
  popen :: "string list \<Rightarrow> pyerror + string"
  json_loads :: "string \<Rightarrow> pyerror + json"
  float_repr :: "string \<Rightarrow> string"

text \<open>
  What the script does, in order: a \<^verbatim>\<open>print\<close> call with its text, the prompt of an
  \<^verbatim>\<open>input\<close> call, the start of a subprocess with its argument list, and the help text
  of the option parser.
\<close>

datatype event =
    Stdout string
  | Prompt string
  | Exec "string list"
  | HelpText

text \<open>The lines still to be read from standard input, and what has happened so far.\<close>

record io =
  stdin :: "string list"
  trace :: "event list"

type_synonym 'a prog = "io \<Rightarrow> (pyerror + 'a) \<times> io"

definition ret :: "'a \<Rightarrow> 'a prog" where
  "ret x s = (Inr x, s)"

definition raise :: "pyerror \<Rightarrow> 'a prog" where
  "raise e s = (Inl e, s)"

definition lift :: "pyerror + 'a \<Rightarrow> 'a prog" where
  "lift r s = (r, s)"

definition andThen :: "'a prog \<Rightarrow> ('a \<Rightarrow> 'b prog) \<Rightarrow> 'b prog" where
  "andThen m k s = (case m s of (Inl e, s') \<Rightarrow> (Inl e, s') | (Inr x, s') \<Rightarrow> k x s')"

fun seq :: "unit prog list \<Rightarrow> unit prog" where
  "seq [] = ret ()"
| "seq (m # ms) = andThen m (\<lambda>_. seq ms)"

definition emit :: "event \<Rightarrow> unit prog" where
  "emit e s = (Inr (), s\<lparr>trace := trace s @ [e]\<rparr>)"

definition print :: "string \<Rightarrow> unit prog" where
  "print text = emit (Stdout text)"

text \<open>\<^verbatim>\<open>input(prompt)\<close>: the prompt is written, then a line is read; no line left is EOFError.\<close>

definition input :: "string \<Rightarrow> string prog" where
  "input prompt s =
     (case stdin s of
        [] \<Rightarrow> (Inl EOFError, s\<lparr>trace := trace s @ [Prompt prompt]\<rparr>)
      | l # ls \<Rightarrow> (Inr l, s\<lparr>stdin := ls, trace := trace s @ [Prompt prompt]\<rparr>))"

section \<open>The script\<close>

definition DSAPICRED_ENV :: string where
  "DSAPICRED_ENV = ''DSAPICRED''"

definition RunCommand :: "host \<Rightarrow> string list \<Rightarrow> string prog" where
  "RunCommand h cmd =
     andThen (print (''running command: '' @ list_repr cmd)) (\<lambda>_.
     andThen (print '''') (\<lambda>_.
     andThen (emit (Exec cmd)) (\<lambda>_.
     lift (popen h cmd))))"

text \<open>The flag values \<^verbatim>\<open>parse_args\<close> returns.\<close>

record options =
  login :: bool
  logout :: bool

definition cred_guidance :: string where
  "cred_guidance =
     ''Cannot find credentials. You can pass them: client id, client secret, and refresh token via the --cred''
     @ [CHR 0x0A] @ ''            flag or the DSAPICRED environment variable.''
     @ [CHR 0x0A] @ ''        ''"

definition GetDSApiCredOrDie :: "host \<Rightarrow> options \<Rightarrow> string prog" where
  "GetDSApiCredOrDie h opts =
     (case environ h DSAPICRED_ENV of
        Some v \<Rightarrow> ret (strip v)
      | None \<Rightarrow> andThen (print cred_guidance) (\<lambda>_. raise (SystemExit (- 1))))"

text \<open>
  \<^verbatim>\<open>[a, b, c] = xs\<close>: a list of any other length is a ValueError, with the message of
  the interpreter.
\<close>

definition unpack3 :: "string list \<Rightarrow> pyerror + (string \<times> string \<times> string)" where
  "unpack3 xs =
     (case xs of
        [a, b, c] \<Rightarrow> Inr (a, b, c)
      | _ \<Rightarrow> if length xs < 3
             then Inl (ValueError (''not enough values to unpack (expected 3, got ''
                                   @ string_of_nat (length xs) @ '')''))
             else Inl (ValueError ''too many values to unpack (expected 3)''))"

definition GetAccessTokenOrDie :: "host \<Rightarrow> options \<Rightarrow> json prog" where
  "GetAccessTokenOrDie h opts =
     andThen (GetDSApiCredOrDie h opts) (\<lambda>cred.
     andThen (lift (unpack3 (split_on CHR '','' cred))) (\<lambda>(cid, csc, refresh_token).
     andThen (RunCommand h
       [''curl'',
        ''--data'',
        ''refresh_token='' @ refresh_token @ ''&client_id='' @ cid @ ''&client_secret='' @ csc
          @ ''&grant_type=refresh_token'',
        ''https://accounts.google.com/o/oauth2/token'']) (\<lambda>output.
     andThen (lift (json_loads h output)) (\<lambda>json_output.
     andThen (lift (py_contains ''access_token'' json_output)) (\<lambda>found.
     if found then lift (py_getitem json_output ''access_token'')
     else raise (ValueError (''missing access_token in response: '' @ bytes_repr output)))))))"

definition Logout :: "host \<Rightarrow> options \<Rightarrow> unit prog" where
  "Logout h opts =
     andThen (GetDSApiCredOrDie h opts) (\<lambda>ds3_token.
     andThen (lift (unpack3 (split_on CHR '','' ds3_token))) (\<lambda>(_, _, refresh_token).
     andThen (RunCommand h
       [''curl'',
        ''https://accounts.google.com/o/oauth2/revoke?token='' @ refresh_token]) (\<lambda>_.
     ret ())))"

definition Login :: "host \<Rightarrow> unit prog" where
  \<open>Login h =
     andThen (seq
       [print '''',
        print ''This script requires setting up a Google API project.'',
        print ''If you have not done so, follow these instructions:'',
        print ''1. Visit https://console.developers.google.com'',
        print ''2. Create a new project and go to "API & auth -> credentials".'',
        print ''4. Create an OAuth2 client ID.'',
        print ''5. When picking application type, choose "Installed application", type "Other".'',
        print ''6. Enter the cliend id and client secret below:'',
        print '''']) (\<lambda>_.
     andThen (input ''Client ID: '') (\<lambda>line1. let cid = strip line1 in
     andThen (input ''Client secret: '') (\<lambda>line2. let csc = strip line2 in
     andThen (seq
       [print ''Please go to https://developers.google.com/oauthplayground/'',
        print ''and type the scope of your application (e.g analytics)'']) (\<lambda>_.
     andThen (input ''Scope: '') (\<lambda>line3. let scope = strip line3 in
     andThen (seq
       [print '''',
        print (''Please open the following URL in the browser to authenticate. ''
               @ ''When successful, the browser will display a code. ''
               @ ''Enter the code below.''),
        print '''',
        print (''https://accounts.google.com/o/oauth2/auth?''
               @ ''scope=https%3A%2F%2Fwww.googleapis.com%2Fauth%2F''
               @ scope
               @ ''&redirect_uri=urn:ietf:wg:oauth:2.0:oob''
               @ ''&response_type=code''
               @ ''&access_type=offline''
               @ ''&client_id='' @ cid),
        print '''']) (\<lambda>_.
     andThen (input ''Code: '') (\<lambda>line4. let code = strip line4 in
     andThen (print '''') (\<lambda>_.
     andThen (RunCommand h
       [''curl'',
        ''-s'',
        ''--data'',
        ''code='' @ code @ ''&client_id='' @ cid @ ''&client_secret='' @ csc
          @ ''&redirect_uri=urn:ietf:wg:oauth:2.0:oob''
          @ ''&grant_type=authorization_code'',
        ''https://accounts.google.com/o/oauth2/token'']) (\<lambda>output.
     andThen (lift (json_loads h output)) (\<lambda>json_output.
     andThen (lift (py_contains ''refresh_token'' json_output)) (\<lambda>found.
     if found then
       andThen (seq
         [print ''Login successful.'',
          print '''',
          print ''# DSAPI credentials: "client_id,client_secret,refresh_token"'']) (\<lambda>_.
       andThen (lift (py_getitem json_output ''refresh_token'')) (\<lambda>refresh_token.
       andThen (print (cid @ '','' @ [CHR 0x0A] @ csc @ '','' @ [CHR 0x0A]
                       @ py_str (float_repr h) refresh_token)) (\<lambda>_.
       print '''')))
     else raise (ValueError (''Missing refresh_token in response: '' @ bytes_repr output))
     )))))))))))\<close>

subsection \<open>The option parser and the entry point\<close>

text \<open>
  \<^verbatim>\<open>optparse\<close> with the two \<^verbatim>\<open>store_true\<close> flags of the script and the \<^verbatim>\<open>--help\<close>
  option every parser has. A long option may be abbreviated to a prefix that only one
  option has. The parser writes its error messages to standard error, which is not
  recorded, and leaves with status 2.
\<close>

definition long_opts :: "string list" where
  "long_opts = [''--help'', ''--login'', ''--logout'']"

definition match_long_opt :: "string \<Rightarrow> string option" where
  "match_long_opt opt =
     (if opt \<in> set long_opts then Some opt
      else (case filter (prefix opt) long_opts of [w] \<Rightarrow> Some w | _ \<Rightarrow> None))"

definition help_and_exit :: "'a prog" where
  "help_and_exit = andThen (emit HelpText) (\<lambda>_. raise (SystemExit 0))"

definition parser_error :: "'a prog" where
  "parser_error = raise (SystemExit 2)"

fun process_args :: "string list \<Rightarrow> options \<Rightarrow> options prog" where
  "process_args [] values = ret values"
| "process_args (arg # rargs) values =
     (if arg = ''--'' then ret values
      else if take 2 arg = ''--'' then
        (case match_long_opt (takeWhile (\<lambda>c. c \<noteq> CHR ''='') arg) of
           None \<Rightarrow> parser_error
         | Some opt \<Rightarrow>
             if CHR ''='' \<in> set arg then parser_error
             else if opt = ''--help'' then help_and_exit
             else if opt = ''--login'' then process_args rargs (values\<lparr>login := True\<rparr>)
             else process_args rargs (values\<lparr>logout := True\<rparr>))
      else if take 1 arg = ''-'' \<and> 1 < length arg then
        (if arg ! 1 = CHR ''h'' then help_and_exit else parser_error)
      else process_args rargs values)"

definition parse_args :: "string list \<Rightarrow> options prog" where
  "parse_args argv = process_args argv \<lparr>login = False, logout = False\<rparr>"

definition Main :: "host \<Rightarrow> string list \<Rightarrow> unit prog" where
  "Main h argv =
     andThen (parse_args argv) (\<lambda>opts.
     if login opts then Login h
     else if logout opts then Logout h opts
     else emit HelpText)"

text \<open>
  The status the process ends with: 0 after a normal return, 1 after an exception other
  than SystemExit. The argument of \<^verbatim>\<open>sys.exit\<close> is converted to a C \<^verbatim>\<open>long\<close> of 64
  bits, with -1 for a value that does not fit, and the process reports its low eight
  bits: \<^verbatim>\<open>sys.exit(-1)\<close> ends the process with status 255.
\<close>

definition exit_status :: "pyerror + 'a \<Rightarrow> int" where
  "exit_status r =
     (case r of
        Inr _ \<Rightarrow> 0
      | Inl (SystemExit n) \<Rightarrow> if - (2 ^ 63) \<le> n \<and> n < 2 ^ 63 then n mod 256 else 255
      | Inl _ \<Rightarrow> 1)"

section \<open>A JSON decoder\<close>

text \<open>
  The decoder of the \<^verbatim>\<open>json\<close> module (\<^verbatim>\<open>json/decoder.py\<close>, \<^verbatim>\<open>json/scanner.py\<close>) on
  text of 7-bit characters: white space, strings with their escapes, numbers, the
  constants, arrays and objects, a later key of an object replacing the value of an equal
  earlier one. It gives the \<open>json_loads\<close> of a host in the closed scenarios below. A
  byte outside 1 to 127 and an escape for a code point from U+0100 are outside the text
  this theory models; the decoder answers them with \<open>JSONDecodeError\<close>, so it stands for
  the library on the other texts only. The first argument of the three mutually
  recursive functions bounds the number of nested calls; \<open>json_decode\<close> starts them with
  more than the length of the text.
\<close>

definition is_ws :: "char \<Rightarrow> bool" where
  "is_ws c = (c = CHR '' '' \<or> c = CHR 0x09 \<or> c = CHR 0x0A \<or> c = CHR 0x0D)"

definition skip_ws :: "string \<Rightarrow> string" where
  "skip_ws = dropWhile is_ws"

definition is_digit :: "char \<Rightarrow> bool" where
  "is_digit c = (48 \<le> (of_char c :: nat) \<and> (of_char c :: nat) \<le> 57)"

definition hex_value :: "char \<Rightarrow> nat option" where
  "hex_value c =
     (let n = (of_char c :: nat)
      in if 48 \<le> n \<and> n \<le> 57 then Some (n - 48)
         else if 97 \<le> n \<and> n \<le> 102 then Some (n - 87)
         else if 65 \<le> n \<and> n \<le> 70 then Some (n - 55)
         else None)"

definition hex4 :: "string \<Rightarrow> nat option" where
  "hex4 s =
     (case map hex_value s of
        [Some a, Some b, Some c, Some d] \<Rightarrow> Some (((a * 16 + b) * 16 + c) * 16 + d)
      | _ \<Rightarrow> None)"

definition unescape :: "char \<Rightarrow> char option" where
  "unescape e =
     (if e = CHR 0x22 \<or> e = CHR 0x5C \<or> e = CHR ''/'' then Some e
      else if e = CHR ''b'' then Some (CHR 0x08)
      else if e = CHR ''f'' then Some (CHR 0x0C)
      else if e = CHR ''n'' then Some (CHR 0x0A)
      else if e = CHR ''r'' then Some (CHR 0x0D)
      else if e = CHR ''t'' then Some (CHR 0x09)
      else None)"

definition cons_fst :: "'a \<Rightarrow> ('a list \<times> 'b) option \<Rightarrow> ('a list \<times> 'b) option" where
  "cons_fst x r = map_option (\<lambda>(xs, rest). (x # xs, rest)) r"

fun scanstring :: "string \<Rightarrow> (string \<times> string) option" where
  "scanstring [] = None"
| "scanstring (c # cs) =
     (if c = CHR 0x22 then Some ([], cs)
      else if c = CHR 0x5C then
        (case cs of
           [] \<Rightarrow> None
         | e # r \<Rightarrow>
             if e = CHR ''u'' then
               (case hex4 (take 4 r) of
                  None \<Rightarrow> None
                | Some n \<Rightarrow> if n < 256 then cons_fst (char_of n) (scanstring (drop 4 r)) else None)
             else (case unescape e of
                     None \<Rightarrow> None
                   | Some d \<Rightarrow> cons_fst d (scanstring r)))
      else if (of_char c :: nat) < 32 then None
      else cons_fst c (scanstring cs))"

text \<open>The number at the start of the text, as the pattern of the scanner matches it.\<close>

definition scan_int_part :: "string \<Rightarrow> (string \<times> string) option" where
  "scan_int_part s =
     (let (sign, t) = (case s of c # r \<Rightarrow> if c = CHR ''-'' then (''-'', r) else ([], s) | [] \<Rightarrow> ([], s))
      in case t of
           [] \<Rightarrow> None
         | d # r \<Rightarrow>
             if d = CHR ''0'' then Some (sign @ ''0'', r)
             else if is_digit d then Some (sign @ takeWhile is_digit t, dropWhile is_digit t)
             else None)"

definition scan_frac :: "string \<Rightarrow> string \<times> string" where
  "scan_frac s =
     (case s of
        p # d # r \<Rightarrow>
          if p = CHR ''.'' \<and> is_digit d
          then (p # takeWhile is_digit (d # r), dropWhile is_digit (d # r))
          else ([], s)
      | _ \<Rightarrow> ([], s))"

definition scan_exp :: "string \<Rightarrow> string \<times> string" where
  "scan_exp s =
     (case s of
        [] \<Rightarrow> ([], s)
      | e # r \<Rightarrow>
          if e = CHR ''e'' \<or> e = CHR ''E'' then
            (let (sign, t) = (case r of c # r' \<Rightarrow> if c = CHR ''-'' \<or> c = CHR ''+'' then ([c], r') else ([], r)
                                       | [] \<Rightarrow> ([], r))
             in if takeWhile is_digit t = [] then ([], s)
                else (e # sign @ takeWhile is_digit t, dropWhile is_digit t))
          else ([], s))"

definition int_of_digits :: "string \<Rightarrow> int" where
  "int_of_digits ds = foldl (\<lambda>a d. 10 * a + (int (of_char d) - 48)) 0 ds"

definition int_of_literal :: "string \<Rightarrow> int" where
  "int_of_literal l = (case l of c # r \<Rightarrow> if c = CHR ''-'' then - int_of_digits r else int_of_digits l | [] \<Rightarrow> 0)"

definition scan_number :: "string \<Rightarrow> (json \<times> string) option" where
  "scan_number s =
     (case scan_int_part s of
        None \<Rightarrow> None
      | Some (integer, r1) \<Rightarrow>
          (let (frac, r2) = scan_frac r1; (exp, r3) = scan_exp r2
           in if frac = [] \<and> exp = [] then Some (JInt (int_of_literal integer), r3)
              else Some (JFloat (integer @ frac @ exp), r3)))"

definition scan_word :: "string \<Rightarrow> json \<Rightarrow> string \<Rightarrow> (json \<times> string) option" where
  "scan_word word v s = (if take (length word) s = word then Some (v, drop (length word) s) else None)"

definition first_of :: "'a option list \<Rightarrow> 'a option" where
  "first_of rs = (case filter (\<lambda>r. r \<noteq> None) rs of [] \<Rightarrow> None | r # _ \<Rightarrow> r)"

definition scan_atom :: "string \<Rightarrow> (json \<times> string) option" where
  "scan_atom s =
     first_of
       [scan_word ''null'' JNull s,
        scan_word ''true'' (JBool True) s,
        scan_word ''false'' (JBool False) s,
        scan_number s,
        scan_word ''NaN'' (JFloat ''NaN'') s,
        scan_word ''Infinity'' (JFloat ''Infinity'') s,
        scan_word ''-Infinity'' (JFloat ''-Infinity'') s]"

fun dict_set :: "string \<Rightarrow> json \<Rightarrow> (string \<times> json) list \<Rightarrow> (string \<times> json) list" where
  "dict_set k v [] = [(k, v)]"
| "dict_set k v ((k', v') # kvs) =
     (if k = k' then (k, v) # kvs else (k', v') # dict_set k v kvs)"

fun scan_once :: "nat \<Rightarrow> string \<Rightarrow> (json \<times> string) option"
  and scan_array :: "nat \<Rightarrow> json list \<Rightarrow> string \<Rightarrow> (json \<times> string) option"
  and scan_object :: "nat \<Rightarrow> (string \<times> json) list \<Rightarrow> string \<Rightarrow> (json \<times> string) option"
where
  "scan_once 0 s = None"
| "scan_once (Suc n) s =
     (case s of
        [] \<Rightarrow> None
      | c # cs \<Rightarrow>
          if c = CHR 0x22 then map_option (\<lambda>(t, rest). (JString t, rest)) (scanstring cs)
          else if c = CHR ''{'' then
            (case skip_ws cs of
               [] \<Rightarrow> None
             | d # r \<Rightarrow> if d = CHR ''}'' then Some (JObject [], r) else scan_object n [] (d # r))
          else if c = CHR ''['' then
            (case skip_ws cs of
               [] \<Rightarrow> None
             | d # r \<Rightarrow> if d = CHR '']'' then Some (JArray [], r) else scan_array n [] (d # r))
          else scan_atom s)"
| "scan_array 0 vs s = None"
| "scan_array (Suc n) vs s =
     (case scan_once n s of
        None \<Rightarrow> None
      | Some (v, r) \<Rightarrow>
          (case skip_ws r of
             [] \<Rightarrow> None
           | d # r' \<Rightarrow>
               if d = CHR '']'' then Some (JArray (vs @ [v]), r')
               else if d = CHR '','' then scan_array n (vs @ [v]) (skip_ws r')
               else None))"
| "scan_object 0 kvs s = None"
| "scan_object (Suc n) kvs s =
     (case s of
        [] \<Rightarrow> None
      | q # s1 \<Rightarrow>
          if q \<noteq> CHR 0x22 then None
          else
            (case scanstring s1 of
               None \<Rightarrow> None
             | Some (key, s2) \<Rightarrow>
                 (case skip_ws s2 of
                    [] \<Rightarrow> None
                  | colon # s3 \<Rightarrow>
                      if colon \<noteq> CHR '':'' then None
                      else
                        (case scan_once n (skip_ws s3) of
                           None \<Rightarrow> None
                         | Some (v, s4) \<Rightarrow>
                             (case skip_ws s4 of
                                [] \<Rightarrow> None
                              | d # s5 \<Rightarrow>
                                  if d = CHR ''}'' then Some (JObject (dict_set key v kvs), s5)
                                  else if d = CHR '','' then scan_object n (dict_set key v kvs) (skip_ws s5)
                                  else None)))))"

definition is_ascii :: "char \<Rightarrow> bool" where
  "is_ascii c = (0 < (of_char c :: nat) \<and> (of_char c :: nat) < 128)"

definition json_decode :: "string \<Rightarrow> pyerror + json" where
  "json_decode s =
     (if list_all is_ascii s then
        (case scan_once (Suc (length s)) (skip_ws s) of
           None \<Rightarrow> Inl JSONDecodeError
         | Some (v, rest) \<Rightarrow> if skip_ws rest = [] then Inr v else Inl JSONDecodeError)
      else Inl JSONDecodeError)"

section \<open>Notions of the specification\<close>

text \<open>
  ``URL-escaped'': percent-encoding, every character but the unreserved ones (letters,
  digits and \<^verbatim>\<open>-._~\<close>) replaced by \<^verbatim>\<open>%\<close> and two hexadecimal digits.
\<close>

definition upper_hex_digit :: "nat \<Rightarrow> char" where
  "upper_hex_digit n = ''0123456789ABCDEF'' ! (n mod 16)"

definition is_unreserved :: "char \<Rightarrow> bool" where
  "is_unreserved c =
     (let n = (of_char c :: nat)
      in (48 \<le> n \<and> n \<le> 57) \<or> (65 \<le> n \<and> n \<le> 90) \<or> (97 \<le> n \<and> n \<le> 122)
         \<or> c = CHR ''-'' \<or> c = CHR ''.'' \<or> c = CHR ''_'' \<or> c = CHR ''~'')"

definition url_escape :: "string \<Rightarrow> string" where
  "url_escape s =
     concat (map (\<lambda>c. if is_unreserved c then [c]
                       else [CHR ''%'', upper_hex_digit (of_char c div 16),
                             upper_hex_digit (of_char c)]) s)"

text \<open>
  Printable ASCII other than \<^verbatim>\<open>'\<close> and the backslash: the characters that both
  \<^verbatim>\<open>repr\<close> functions leave as they are and quote with \<^verbatim>\<open>'\<close>.
\<close>

definition is_plain :: "char \<Rightarrow> bool" where
  "is_plain c =
     (32 \<le> (of_char c :: nat) \<and> (of_char c :: nat) < 127 \<and> c \<noteq> CHR 0x27 \<and> c \<noteq> CHR 0x5C)"

text \<open>
  Every started command is announced: read from the latest event back, a subprocess start
  comes right after the empty line and the line \<^verbatim>\<open>running command: ...\<close> with the
  rendering of its own argument list.
\<close>

fun announced :: "event list \<Rightarrow> bool" where
  "announced (Exec cmd # Stdout blank # Stdout line # earlier) =
     (blank = [] \<and> line = ''running command: '' @ list_repr cmd \<and> announced earlier)"
| "announced (Exec cmd # earlier) = False"
| "announced (e # earlier) = announced earlier"
| "announced [] = True"

definition all_announced :: "event list \<Rightarrow> bool" where
  "all_announced t = announced (rev t)"

text \<open>An argument the option parser passes over: it does not start an option.\<close>

definition positional :: "string \<Rightarrow> bool" where
  "positional arg = (take 1 arg \<noteq> ''-'' \<or> length arg \<le> 1)"

text \<open>
  A program obeys a relation on traces when every run relates the trace before to the
  trace after. The relations of interest are reflexive and transitive and hold for the
  steps that add a line, a prompt or an announced command.
\<close>

definition obeys :: "(event list \<Rightarrow> event list \<Rightarrow> bool) \<Rightarrow> 'a prog \<Rightarrow> bool" where
  "obeys R m = (\<forall>s. R (trace s) (trace (snd (m s))))"

definition trace_order :: "(event list \<Rightarrow> event list \<Rightarrow> bool) \<Rightarrow> bool" where
  "trace_order R =
     ((\<forall>t. R t t) \<and> (\<forall>t u v. R t u \<and> R u v \<longrightarrow> R t v)
      \<and> (\<forall>t x. R t (t @ [Stdout x])) \<and> (\<forall>t p. R t (t @ [Prompt p]))
      \<and> (\<forall>t cmd. R t (t @ [Stdout (''running command: '' @ list_repr cmd), Stdout [], Exec cmd])))"

section \<open>Closed scenarios\<close>

text \<open>
  A host whose server answers every command with the same body, with the decoder above
  as its JSON library. No float occurs in the scenarios, so its rendering is left as the
  literal.
\<close>

definition stub_host :: "string option \<Rightarrow> string \<Rightarrow> host" where
  "stub_host cred body =
     \<lparr>environ = (\<lambda>name. if name = DSAPICRED_ENV then cred else None),
      popen = (\<lambda>cmd. Inr body),
      json_loads = json_decode,
      float_repr = (\<lambda>literal. literal)\<rparr>"

definition console :: "string list \<Rightarrow> io" where
  "console lines = \<lparr>stdin = lines, trace = []\<rparr>"

definition no_options :: options where
  "no_options = \<lparr>login = False, logout = False\<rparr>"

text \<open>An empty JSON object followed by a line feed.\<close>

definition body_newline :: string where
  "body_newline = ''{}'' @ [CHR 0x0A]"

section \<open>Running a program step by step\<close>

lemma andThen_ret: "andThen (ret x) k s = k x s"
  by (simp add: andThen_def ret_def)

lemma andThen_raise: "andThen (raise e) k s = (Inl e, s)"
  by (simp add: andThen_def raise_def)

lemma andThen_lift: "andThen (lift r) k s = (case r of Inl e \<Rightarrow> (Inl e, s) | Inr x \<Rightarrow> k x s)"
  by (simp add: andThen_def lift_def split: sum.splits)

lemma andThen_emit: "andThen (emit e) k s = k () (s\<lparr>trace := trace s @ [e]\<rparr>)"
  by (simp add: andThen_def emit_def)

lemma andThen_print: "andThen (print t) k s = k () (s\<lparr>trace := trace s @ [Stdout t]\<rparr>)"
  by (simp add: print_def andThen_emit)

lemma andThen_input:
  "stdin s = l # ls \<Longrightarrow>
   andThen (input p) k s = k l (s\<lparr>stdin := ls, trace := trace s @ [Prompt p]\<rparr>)"
  by (simp add: andThen_def input_def)

lemma andThen_input_eof:
  "stdin s = [] \<Longrightarrow> andThen (input p) k s = (Inl EOFError, s\<lparr>trace := trace s @ [Prompt p]\<rparr>)"
  by (simp add: andThen_def input_def)

lemma andThen_assoc: "andThen (andThen m f) g = andThen m (\<lambda>x. andThen (f x) g)"
  by (rule ext) (simp add: andThen_def split: prod.splits sum.splits)

lemma andThen_RunCommand:
  "andThen (RunCommand h cmd) k s =
     (case popen h cmd of
        Inl e \<Rightarrow>
          (Inl e, s\<lparr>trace := trace s @
                     [Stdout (''running command: '' @ list_repr cmd), Stdout [], Exec cmd]\<rparr>)
      | Inr out \<Rightarrow>
          k out (s\<lparr>trace := trace s @
                     [Stdout (''running command: '' @ list_repr cmd), Stdout [], Exec cmd]\<rparr>))"
  by (simp add: RunCommand_def andThen_assoc andThen_print andThen_emit andThen_lift
           split: sum.splits)

lemma print_run: "print t s = (Inr (), s\<lparr>trace := trace s @ [Stdout t]\<rparr>)"
  by (simp add: print_def emit_def)

lemma raise_run: "raise e s = (Inl e, s)"
  by (simp add: raise_def)

lemma ret_run: "ret x s = (Inr x, s)"
  by (simp add: ret_def)

lemma lift_run: "lift r s = (r, s)"
  by (simp add: lift_def)

lemmas run_simps =
  andThen_ret andThen_raise andThen_lift andThen_emit andThen_print andThen_input
  andThen_input_eof andThen_assoc andThen_RunCommand
  print_run raise_run ret_run lift_run

lemma RunCommand_run:
  "RunCommand h cmd s =
     (popen h cmd,
      s\<lparr>trace := trace s @ [Stdout (''running command: '' @ list_repr cmd), Stdout [], Exec cmd]\<rparr>)"
  unfolding RunCommand_def andThen_assoc andThen_print andThen_emit lift_def by simp

section \<open>strip, split and repr\<close>

lemma strip_decompose:
  "\<exists>pre post. v = pre @ strip v @ post \<and> list_all is_space pre \<and> list_all is_space post"
proof -
  let ?a = "dropWhile is_space v"
  let ?pre = "takeWhile is_space v"
  let ?post = "rev (takeWhile is_space (rev ?a))"
  have "rev ?a = takeWhile is_space (rev ?a) @ dropWhile is_space (rev ?a)"
    by simp
  then have "?a = rev (dropWhile is_space (rev ?a)) @ ?post"
    by (metis rev_append rev_rev_ident)
  then have "v = ?pre @ strip v @ ?post"
    by (metis strip_def takeWhile_dropWhile_id)
  moreover have "list_all is_space ?pre"
    by (simp add: list_all_iff) (meson set_takeWhileD)
  moreover have "list_all is_space ?post"
    by (simp add: list_all_iff) (meson set_takeWhileD)
  ultimately show ?thesis by blast
qed

lemma strip_hd: "strip v \<noteq> [] \<Longrightarrow> \<not> is_space (hd (strip v))"
proof -
  assume ne: "strip v \<noteq> []"
  let ?a = "dropWhile is_space v"
  have a_ne: "?a \<noteq> []"
  proof
    assume "?a = []"
    then have "strip v = []" by (metis strip_def dropWhile.simps(1) rev.simps(1))
    with ne show False by simp
  qed
  then have h: "\<not> is_space (hd ?a)" by (rule hd_dropWhile)
  have "\<exists>post. ?a = strip v @ post"
    by (metis strip_def rev_append rev_rev_ident takeWhile_dropWhile_id)
  then obtain post where "?a = strip v @ post" ..
  then have "hd ?a = hd (strip v)" using ne by (metis hd_append2)
  with h show ?thesis by simp
qed

lemma strip_last: "strip v \<noteq> [] \<Longrightarrow> \<not> is_space (last (strip v))"
proof -
  assume ne: "strip v \<noteq> []"
  let ?r = "dropWhile is_space (rev (dropWhile is_space v))"
  have r_ne: "?r \<noteq> []" using ne by (simp add: strip_def)
  then have "\<not> is_space (hd ?r)" by (rule hd_dropWhile)
  moreover have "last (strip v) = hd ?r"
    using r_ne by (simp add: strip_def last_rev)
  ultimately show ?thesis by simp
qed

lemma split_on_no_sep: "sep \<notin> set a \<Longrightarrow> split_on sep a = [a]"
  by (induction a) auto

lemma split_on_field:
  "sep \<notin> set a \<Longrightarrow> split_on sep (a @ sep # rest) = a # split_on sep rest"
  by (induction a) auto

lemma split_on_three:
  "sep \<notin> set a \<Longrightarrow> sep \<notin> set b \<Longrightarrow> sep \<notin> set c \<Longrightarrow>
   split_on sep (a @ [sep] @ b @ [sep] @ c) = [a, b, c]"
  by (simp add: split_on_field split_on_no_sep)

lemma quote_for_plain: "list_all is_plain s \<Longrightarrow> quote_for s = CHR 0x27"
  by (auto simp: quote_for_def list_all_iff is_plain_def)

lemma bytes_escape_plain: "is_plain c \<Longrightarrow> bytes_escape (CHR 0x27) c = [c]"
  by (auto simp: is_plain_def bytes_escape_def escape_common_def)

lemma concat_bytes_escape_plain:
  "list_all is_plain s \<Longrightarrow> concat (map (bytes_escape (CHR 0x27)) s) = s"
  by (induction s) (simp_all add: bytes_escape_plain)

lemma bytes_repr_plain:
  "list_all is_plain s \<Longrightarrow> bytes_repr s = ''b'' @ [CHR 0x27] @ s @ [CHR 0x27]"
  by (simp add: bytes_repr_def Let_def quote_for_plain concat_bytes_escape_plain)

lemma str_escape_plain: "is_plain c \<Longrightarrow> str_escape (CHR 0x27) c = [c]"
  by (auto simp: is_plain_def str_escape_def escape_common_def is_printable_def Let_def)

lemma concat_str_escape_plain:
  "list_all is_plain s \<Longrightarrow> concat (map (str_escape (CHR 0x27)) s) = s"
  by (induction s) (simp_all add: str_escape_plain)

lemma str_repr_plain: "list_all is_plain s \<Longrightarrow> str_repr s = [CHR 0x27] @ s @ [CHR 0x27]"
  by (simp add: str_repr_def Let_def quote_for_plain concat_str_escape_plain)

lemma sublist_join: "x \<in> set xs \<Longrightarrow> sublist x (join sep xs)"
proof (induction sep xs rule: join.induct)
  case (1 sep)
  then show ?case by simp
next
  case (2 sep y)
  then show ?case by simp
next
  case (3 sep y z zs)
  show ?case
  proof (cases "x = y")
    case True
    then show ?thesis by simp
  next
    case False
    with 3 have "sublist x (join sep (z # zs))" by simp
    then have "sublist x ((y @ sep) @ join sep (z # zs))"
      by (metis sublist_append)
    then show ?thesis by simp
  qed
qed

text \<open>An argument of plain characters stands as it is in the printed command line.\<close>

lemma printed_argument:
  assumes "arg \<in> set cmd" and "list_all is_plain arg"
  shows "sublist arg (''running command: '' @ list_repr cmd)"
proof -
  have "sublist (str_repr arg) (join '', '' (map str_repr cmd))"
    using assms(1) by (intro sublist_join) simp
  moreover have "sublist arg (str_repr arg)"
    using str_repr_plain[OF assms(2)] by (metis sublist_appendI)
  ultimately have "sublist arg (join '', '' (map str_repr cmd))"
    by (rule sublist_order.order.trans[rotated])
  then have "sublist arg ((''running command: '' @ ''['') @ join '', '' (map str_repr cmd) @ '']'')"
    by (metis sublist_append)
  then show ?thesis by (simp add: list_repr_def)
qed

lemma url_escape_prefix:
  "url_escape ''https://www.googleapis.com/auth/'' = ''https%3A%2F%2Fwww.googleapis.com%2Fauth%2F''"
  by code_simp

section \<open>Values in the closed scenarios\<close>

lemma stub_host_simps:
  "environ (stub_host cred body) DSAPICRED_ENV = cred"
  "popen (stub_host cred body) cmd = Inr body"
  "json_loads (stub_host cred body) = json_decode"
  "float_repr (stub_host cred body) l = l"
  by (simp_all add: stub_host_def)

lemma decode_refresh:
  "json_decode ''{\"refresh_token\":\"R1\"}'' = Inr (JObject [(''refresh_token'', JString ''R1'')])"
  by code_simp

lemma decode_access:
  "json_decode ''{\"access_token\":\"A1\"}'' = Inr (JObject [(''access_token'', JString ''A1'')])"
  by code_simp

lemma decode_newline: "json_decode body_newline = Inr (JObject [])"
  unfolding body_newline_def by code_simp

lemma decode_invalid_grant:
  "json_decode ''{\"error\":\"invalid_grant\"}''
     = Inr (JObject [(''error'', JString ''invalid_grant'')])"
  by code_simp

lemma plain_invalid_grant: "list_all is_plain ''{\"error\":\"invalid_grant\"}''"
  by code_simp

lemma strip_CID: "strip ''CID'' = ''CID''" and strip_SEC: "strip ''SEC'' = ''SEC''"
  by code_simp+

lemma strip_words: "strip ''analytics'' = ''analytics''" "strip ''CODE'' = ''CODE''"
  by code_simp+

lemma strip_padded: "strip '' A,B,C '' = ''A,B,C''"
  by code_simp

lemma strip_triple: "strip ''CID,SEC,R1'' = ''CID,SEC,R1''"
  by code_simp

lemma strip_pair: "strip ''CID,SEC'' = ''CID,SEC''"
  by code_simp

lemma split_pair: "split_on CHR '','' ''CID,SEC'' = [''CID'', ''SEC'']"
  by code_simp

lemma split_triple: "split_on CHR '','' (strip ''CID,SEC,R1'') = [''CID'', ''SEC'', ''R1'']"
  by code_simp

lemma char_of_50: "char_of (50 :: nat) = CHR ''2''"
  by code_simp

section \<open>The credential accessor\<close>

lemma GetDSApiCredOrDie_found:
  "environ h DSAPICRED_ENV = Some v \<Longrightarrow>
   andThen (GetDSApiCredOrDie h opts) k s = k (strip v) s"
  by (simp add: GetDSApiCredOrDie_def run_simps)

lemma GetDSApiCredOrDie_missing:
  "environ h DSAPICRED_ENV = None \<Longrightarrow>
   andThen (GetDSApiCredOrDie h opts) k s =
     (Inl (SystemExit (- 1)), s\<lparr>trace := trace s @ [Stdout cred_guidance]\<rparr>)"
  by (simp add: GetDSApiCredOrDie_def run_simps)

text \<open>
  C10. The accessor returns the value of the environment variable without its
  surrounding white space: the value is the result between two runs of white space, the
  result neither starts nor ends with white space, and nothing is printed or read.
\<close>

theorem GetDSApiCredOrDie_strips:
  assumes "environ h DSAPICRED_ENV = Some v"
  shows "\<exists>pre post.
           GetDSApiCredOrDie h opts s = (Inr (strip v), s)
         \<and> v = pre @ strip v @ post
         \<and> list_all is_space pre \<and> list_all is_space post
         \<and> (strip v = [] \<or> (\<not> is_space (hd (strip v)) \<and> \<not> is_space (last (strip v))))"
proof -
  have "GetDSApiCredOrDie h opts s = (Inr (strip v), s)"
    using assms by (simp add: GetDSApiCredOrDie_def ret_def)
  moreover obtain pre post
    where "v = pre @ strip v @ post" "list_all is_space pre" "list_all is_space post"
    using strip_decompose by blast
  moreover have "strip v = [] \<or> (\<not> is_space (hd (strip v)) \<and> \<not> is_space (last (strip v)))"
    using strip_hd strip_last by blast
  ultimately show ?thesis by blast
qed

text \<open>The stored value \<^verbatim>\<open>" A,B,C "\<close> resolves to \<^verbatim>\<open>"A,B,C"\<close>.\<close>

theorem GetDSApiCredOrDie_strips_witness:
  "GetDSApiCredOrDie (stub_host (Some '' A,B,C '') []) no_options (console [])
     = (Inr ''A,B,C'', console [])"
proof -
  have env: "environ (stub_host (Some '' A,B,C '') []) DSAPICRED_ENV = Some '' A,B,C ''"
    by (simp add: stub_host_simps)
  from GetDSApiCredOrDie_strips[OF env, of no_options "console []"]
  have "GetDSApiCredOrDie (stub_host (Some '' A,B,C '') []) no_options (console [])
          = (Inr (strip '' A,B,C ''), console [])"
    by blast
  then show ?thesis by (simp only: strip_padded)
qed

text \<open>
  C4, as the script behaves. Without the environment variable, GetAccessTokenOrDie and
  Logout print the guidance and leave through \<^verbatim>\<open>sys.exit(-1)\<close>; the guidance is the only
  event, so no command was started. The process then ends with status 255, the low eight
  bits of -1.
\<close>

theorem missing_credentials_exit:
  assumes "environ h DSAPICRED_ENV = None"
  shows "GetAccessTokenOrDie h opts s =
           (Inl (SystemExit (- 1)),
            s\<lparr>trace := trace s @
               [Stdout (''Cannot find credentials. You can pass them: client id, client secret, and refresh token via the --cred''
                        @ [CHR 0x0A] @ ''            flag or the DSAPICRED environment variable.''
                        @ [CHR 0x0A] @ ''        '')]\<rparr>)
       \<and> Logout h opts s =
           (Inl (SystemExit (- 1)),
            s\<lparr>trace := trace s @
               [Stdout (''Cannot find credentials. You can pass them: client id, client secret, and refresh token via the --cred''
                        @ [CHR 0x0A] @ ''            flag or the DSAPICRED environment variable.''
                        @ [CHR 0x0A] @ ''        '')]\<rparr>)
       \<and> exit_status (fst (GetAccessTokenOrDie h opts s)) = 255
       \<and> exit_status (fst (Logout h opts s)) = 255"
  using assms
  by (simp add: GetAccessTokenOrDie_def Logout_def GetDSApiCredOrDie_missing exit_status_def
        cred_guidance_def)

theorem missing_credentials_exit_witness:
  "GetAccessTokenOrDie (stub_host None []) no_options (console [])
     = (Inl (SystemExit (- 1)),
        \<lparr>stdin = [],
         trace = [Stdout (''Cannot find credentials. You can pass them: client id, client secret, and refresh token via the --cred''
                          @ [CHR 0x0A] @ ''            flag or the DSAPICRED environment variable.''
                          @ [CHR 0x0A] @ ''        '')]\<rparr>)
 \<and> Logout (stub_host None []) no_options (console [])
     = (Inl (SystemExit (- 1)),
        \<lparr>stdin = [],
         trace = [Stdout (''Cannot find credentials. You can pass them: client id, client secret, and refresh token via the --cred''
                          @ [CHR 0x0A] @ ''            flag or the DSAPICRED environment variable.''
                          @ [CHR 0x0A] @ ''        '')]\<rparr>)
 \<and> exit_status (fst (GetAccessTokenOrDie (stub_host None []) no_options (console []))) = 255
 \<and> exit_status (fst (Logout (stub_host None []) no_options (console []))) = 255"
proof -
  have env: "environ (stub_host None []) DSAPICRED_ENV = None"
    by (simp add: stub_host_simps)
  from missing_credentials_exit[OF env, of no_options "console []"] show ?thesis
    by (simp add: console_def exit_status_def)
qed

text \<open>
  C4, as stated, fails: with no credential in the environment the status of the process
  is not -1, for GetAccessTokenOrDie and for Logout.
\<close>

theorem missing_credentials_status_not_minus_one:
  "exit_status (fst (GetAccessTokenOrDie (stub_host None []) no_options (console []))) \<noteq> - 1
 \<and> exit_status (fst (Logout (stub_host None []) no_options (console []))) \<noteq> - 1"
proof -
  have env: "environ (stub_host None []) DSAPICRED_ENV = None"
    by (simp add: stub_host_simps)
  have "fst (GetAccessTokenOrDie (stub_host None []) no_options (console [])) = Inl (SystemExit (- 1))"
    "fst (Logout (stub_host None []) no_options (console [])) = Inl (SystemExit (- 1))"
    using env by (simp_all add: GetAccessTokenOrDie_def Logout_def GetDSApiCredOrDie_missing)
  then show ?thesis
    by (simp add: exit_status_def)
qed

section \<open>GetAccessTokenOrDie and Logout\<close>

text \<open>
  C5. A credential string that does not split on commas into three fields makes
  GetAccessTokenOrDie fail in the unpacking assignment, with the ValueError of the
  interpreter; the state is unchanged, so nothing was printed and no command was started.
\<close>

theorem malformed_credentials_unpack:
  assumes "environ h DSAPICRED_ENV = Some v"
    and "length (split_on CHR '','' (strip v)) \<noteq> 3"
  shows "GetAccessTokenOrDie h opts s =
           (Inl (ValueError
              (if length (split_on CHR '','' (strip v)) < 3
               then ''not enough values to unpack (expected 3, got ''
                    @ string_of_nat (length (split_on CHR '','' (strip v))) @ '')''
               else ''too many values to unpack (expected 3)'')), s)"
proof -
  have "unpack3 (split_on CHR '','' (strip v)) =
          Inl (ValueError
              (if length (split_on CHR '','' (strip v)) < 3
               then ''not enough values to unpack (expected 3, got ''
                    @ string_of_nat (length (split_on CHR '','' (strip v))) @ '')''
               else ''too many values to unpack (expected 3)''))"
    using assms(2) by (auto simp: unpack3_def split: list.splits)
  then show ?thesis
    using assms(1) by (simp add: GetAccessTokenOrDie_def GetDSApiCredOrDie_found andThen_lift)
qed

theorem malformed_credentials_unpack_witness:
  "GetAccessTokenOrDie (stub_host (Some ''CID,SEC'') []) no_options (console [])
     = (Inl (ValueError ''not enough values to unpack (expected 3, got 2)''), console [])"
proof -
  have env: "environ (stub_host (Some ''CID,SEC'') []) DSAPICRED_ENV = Some ''CID,SEC''"
    by (simp add: stub_host_simps)
  have shape: "length (split_on CHR '','' (strip ''CID,SEC'')) \<noteq> 3"
    by (simp add: strip_pair split_pair)
  from malformed_credentials_unpack[OF env shape, of no_options "console []"] show ?thesis
    by (simp add: strip_pair split_pair char_of_50)
qed

text \<open>
  C1. For a credential string \<^verbatim>\<open>A,B,C\<close> of three comma-free fields, GetAccessTokenOrDie
  starts exactly one command, \<^verbatim>\<open>curl --data\<close> with the body
  \<^verbatim>\<open>refresh_token=C&client_id=A&client_secret=B&grant_type=refresh_token\<close> and the token
  endpoint, whatever the server answers.
\<close>

theorem GetAccessTokenOrDie_request_body:
  assumes "environ h DSAPICRED_ENV = Some v"
    and "strip v = a @ '','' @ b @ '','' @ c"
    and "CHR '','' \<notin> set a" and "CHR '','' \<notin> set b" and "CHR '','' \<notin> set c"
  shows "trace (snd (GetAccessTokenOrDie h opts s)) =
           trace s @
           [Stdout (''running command: '' @ list_repr
              [''curl'', ''--data'',
               ''refresh_token='' @ c @ ''&client_id='' @ a @ ''&client_secret='' @ b
                 @ ''&grant_type=refresh_token'',
               ''https://accounts.google.com/o/oauth2/token'']),
            Stdout [],
            Exec
              [''curl'', ''--data'',
               ''refresh_token='' @ c @ ''&client_id='' @ a @ ''&client_secret='' @ b
                 @ ''&grant_type=refresh_token'',
               ''https://accounts.google.com/o/oauth2/token'']]"
proof -
  have fields: "split_on CHR '','' (strip v) = [a, b, c]"
    using assms(2-5) split_on_three[of "CHR '',''" a b c] by simp
  show ?thesis
    using assms(1)
    by (simp add: GetAccessTokenOrDie_def GetDSApiCredOrDie_found fields unpack3_def
          run_simps split: sum.splits)
qed

theorem GetAccessTokenOrDie_request_body_witness:
  "trace (snd (GetAccessTokenOrDie (stub_host (Some ''CID,SEC,R1'') []) no_options (console [])))
     = [Stdout (''running command: '' @ list_repr
          [''curl'', ''--data'',
           ''refresh_token=R1&client_id=CID&client_secret=SEC&grant_type=refresh_token'',
           ''https://accounts.google.com/o/oauth2/token'']),
        Stdout [],
        Exec
          [''curl'', ''--data'',
           ''refresh_token=R1&client_id=CID&client_secret=SEC&grant_type=refresh_token'',
           ''https://accounts.google.com/o/oauth2/token'']]"
proof -
  have env: "environ (stub_host (Some ''CID,SEC,R1'') []) DSAPICRED_ENV = Some ''CID,SEC,R1''"
    by (simp add: stub_host_simps)
  have form: "strip ''CID,SEC,R1'' = ''CID'' @ '','' @ ''SEC'' @ '','' @ ''R1''"
    by (simp add: strip_triple)
  have a: "CHR '','' \<notin> set ''CID''" and b: "CHR '','' \<notin> set ''SEC''"
    and c: "CHR '','' \<notin> set ''R1''"
    by simp_all
  from GetAccessTokenOrDie_request_body[OF env form a b c, of no_options "console []"]
  show ?thesis
    by (simp add: console_def)
qed

text \<open>
  C6. For a credential string \<^verbatim>\<open>A,B,C\<close> of three comma-free fields, Logout starts
  exactly one command, \<^verbatim>\<open>curl\<close> with the revoke URL and \<^verbatim>\<open>token=C\<close> appended as it
  is. What the command writes is dropped: Logout returns normally for every body, and
  only an exception of the subprocess start reaches the caller.
\<close>

theorem Logout_single_request:
  assumes "environ h DSAPICRED_ENV = Some v"
    and "strip v = a @ '','' @ b @ '','' @ c"
    and "CHR '','' \<notin> set a" and "CHR '','' \<notin> set b" and "CHR '','' \<notin> set c"
  shows "trace (snd (Logout h opts s)) =
           trace s @
           [Stdout (''running command: '' @ list_repr
              [''curl'', ''https://accounts.google.com/o/oauth2/revoke?token='' @ c]),
            Stdout [],
            Exec [''curl'', ''https://accounts.google.com/o/oauth2/revoke?token='' @ c]]
       \<and> fst (Logout h opts s) =
           (case popen h [''curl'', ''https://accounts.google.com/o/oauth2/revoke?token='' @ c] of
              Inl e \<Rightarrow> Inl e
            | Inr body \<Rightarrow> Inr ())"
proof -
  have fields: "split_on CHR '','' (strip v) = [a, b, c]"
    using assms(2-5) split_on_three[of "CHR '',''" a b c] by simp
  show ?thesis
    using assms(1)
    by (simp add: Logout_def GetDSApiCredOrDie_found fields unpack3_def run_simps
          split: sum.splits)
qed

theorem Logout_single_request_witness:
  "trace (snd (Logout (stub_host (Some ''CID,SEC,R1'') ''anything'') no_options (console [])))
     = [Stdout (''running command: '' @ list_repr
          [''curl'', ''https://accounts.google.com/o/oauth2/revoke?token=R1'']),
        Stdout [],
        Exec [''curl'', ''https://accounts.google.com/o/oauth2/revoke?token=R1'']]
 \<and> fst (Logout (stub_host (Some ''CID,SEC,R1'') ''anything'') no_options (console [])) = Inr ()"
proof -
  have env: "environ (stub_host (Some ''CID,SEC,R1'') ''anything'') DSAPICRED_ENV
               = Some ''CID,SEC,R1''"
    by (simp add: stub_host_simps)
  have form: "strip ''CID,SEC,R1'' = ''CID'' @ '','' @ ''SEC'' @ '','' @ ''R1''"
    by (simp add: strip_triple)
  have a: "CHR '','' \<notin> set ''CID''" and b: "CHR '','' \<notin> set ''SEC''"
    and c: "CHR '','' \<notin> set ''R1''"
    by simp_all
  from Logout_single_request[OF env form a b c, of no_options "console []"] show ?thesis
    by (simp add: console_def stub_host_simps)
qed

section \<open>Login\<close>

text \<open>
  C2, as the script behaves. When the response decodes to a JSON object without the key
  \<^verbatim>\<open>refresh_token\<close>, Login raises ValueError with the message
  \<^verbatim>\<open>Missing refresh_token in response: \<close> followed by the \<^verbatim>\<open>bytes\<close> literal of the body,
  as \<^verbatim>\<open>%s\<close> renders a \<^verbatim>\<open>bytes\<close> value: \<^verbatim>\<open>b'...'\<close> with escapes. A body of plain
  characters stands in it as it is.
\<close>

theorem Login_missing_refresh_token:
  assumes "stdin s = line1 # line2 # line3 # line4 # rest"
    and "popen h
           [''curl'', ''-s'', ''--data'',
            ''code='' @ strip line4 @ ''&client_id='' @ strip line1
              @ ''&client_secret='' @ strip line2
              @ ''&redirect_uri=urn:ietf:wg:oauth:2.0:oob&grant_type=authorization_code'',
            ''https://accounts.google.com/o/oauth2/token''] = Inr body"
    and "json_loads h body = Inr (JObject kvs)"
    and "''refresh_token'' \<notin> set (map fst kvs)"
  shows "fst (Login h s) =
           Inl (ValueError (''Missing refresh_token in response: '' @ bytes_repr body))
       \<and> (list_all is_plain body \<longrightarrow>
            bytes_repr body = ''b'' @ [CHR 0x27] @ body @ [CHR 0x27])"
proof -
  have "fst (Login h s) =
          Inl (ValueError (''Missing refresh_token in response: '' @ bytes_repr body))"
    using assms
    by (simp add: Login_def Let_def run_simps)
  then show ?thesis
    by (simp add: bytes_repr_plain)
qed

text \<open>The error object \<^verbatim>\<open>{"error":"invalid_grant"}\<close> is of plain characters.\<close>

theorem Login_missing_refresh_token_witness:
  "fst (Login (stub_host None ''{\"error\":\"invalid_grant\"}'')
              (console [''CID'', ''SEC'', ''analytics'', ''CODE'']))
     = Inl (ValueError (''Missing refresh_token in response: b'' @ [CHR 0x27]
                        @ ''{\"error\":\"invalid_grant\"}'' @ [CHR 0x27]))"
proof -
  let ?h = "stub_host None ''{\"error\":\"invalid_grant\"}''"
  have inp: "stdin (console [''CID'', ''SEC'', ''analytics'', ''CODE''])
               = ''CID'' # ''SEC'' # ''analytics'' # ''CODE'' # []"
    by (simp add: console_def)
  have resp: "popen ?h
           [''curl'', ''-s'', ''--data'',
            ''code='' @ strip ''CODE'' @ ''&client_id='' @ strip ''CID''
              @ ''&client_secret='' @ strip ''SEC''
              @ ''&redirect_uri=urn:ietf:wg:oauth:2.0:oob&grant_type=authorization_code'',
            ''https://accounts.google.com/o/oauth2/token'']
         = Inr ''{\"error\":\"invalid_grant\"}''"
    by (simp only: stub_host_simps)
  have dec: "json_loads ?h ''{\"error\":\"invalid_grant\"}''
               = Inr (JObject [(''error'', JString ''invalid_grant'')])"
    by (simp only: stub_host_simps decode_invalid_grant)
  have lacks: "''refresh_token'' \<notin> set (map fst [(''error'', JString ''invalid_grant'')])"
    by simp
  from Login_missing_refresh_token[OF inp resp dec lacks] plain_invalid_grant show ?thesis
    by simp
qed

text \<open>
  C2, as stated, fails. The body \<^verbatim>\<open>{}\<close> followed by a line feed decodes to an object
  without \<^verbatim>\<open>refresh_token\<close>; the message of the ValueError ends in \<^verbatim>\<open>b'{}\<close>, a
  backslash, the letter n and the closing quote, and the body with its line feed is no
  part of it.
\<close>

theorem Login_message_escapes_body:
  "json_loads (stub_host None body_newline) body_newline = Inr (JObject [])
 \<and> fst (Login (stub_host None body_newline) (console [''CID'', ''SEC'', ''analytics'', ''CODE''])) =
     Inl (ValueError (''Missing refresh_token in response: b'' @ [CHR 0x27] @ ''{}''
                      @ [CHR 0x5C] @ ''n'' @ [CHR 0x27]))
 \<and> \<not> sublist body_newline
       (''Missing refresh_token in response: b'' @ [CHR 0x27] @ ''{}''
        @ [CHR 0x5C] @ ''n'' @ [CHR 0x27])"
proof -
  have br: "bytes_repr body_newline = ''b'' @ [CHR 0x27] @ ''{}'' @ [CHR 0x5C] @ ''n'' @ [CHR 0x27]"
    unfolding body_newline_def by code_simp
  have run: "fst (Login (stub_host None body_newline)
                        (console [''CID'', ''SEC'', ''analytics'', ''CODE''])) =
     Inl (ValueError (''Missing refresh_token in response: '' @ bytes_repr body_newline))"
    by (simp add: Login_def Let_def run_simps console_def stub_host_simps
          decode_newline)
  have "CHR 0x0A \<in> set body_newline"
    by (simp add: body_newline_def)
  moreover have "CHR 0x0A \<notin> set (''Missing refresh_token in response: b'' @ [CHR 0x27] @ ''{}''
                                  @ [CHR 0x5C] @ ''n'' @ [CHR 0x27])"
    by simp
  ultimately have "\<not> sublist body_newline
       (''Missing refresh_token in response: b'' @ [CHR 0x27] @ ''{}''
        @ [CHR 0x5C] @ ''n'' @ [CHR 0x27])"
    by (meson set_mono_sublist subsetD)
  with run br show ?thesis
    by (simp add: stub_host_simps decode_newline)
qed

text \<open>
  A response that decodes to a number, a truth value or \<^verbatim>\<open>null\<close> does not reach the
  ValueError: the membership test itself raises TypeError.
\<close>

lemma Login_not_iterable:
  assumes "stdin s = line1 # line2 # line3 # line4 # rest"
    and "popen h
           [''curl'', ''-s'', ''--data'',
            ''code='' @ strip line4 @ ''&client_id='' @ strip line1
              @ ''&client_secret='' @ strip line2
              @ ''&redirect_uri=urn:ietf:wg:oauth:2.0:oob&grant_type=authorization_code'',
            ''https://accounts.google.com/o/oauth2/token''] = Inr body"
    and "json_loads h body = Inr j"
    and "j = JNull \<or> j = JBool b \<or> j = JInt n \<or> j = JFloat l"
  shows "fst (Login h s) = Inl TypeError"
  using assms
  by (auto simp: Login_def Let_def run_simps)

lemma suffix_by_rev: "prefix (rev xs) (rev ys) \<Longrightarrow> suffix xs ys"
  by (simp add: suffix_to_prefix)

text \<open>
  C3. Login with the lines \<^verbatim>\<open>CID\<close> and \<^verbatim>\<open>SEC\<close> for the client, against a server that
  answers \<^verbatim>\<open>{"refresh_token":"R1"}\<close>, returns normally and ends its output with the
  success line, the heading and the three lines \<^verbatim>\<open>CID,\<close> \<^verbatim>\<open>SEC,\<close> \<^verbatim>\<open>R1\<close>.
  GetAccessTokenOrDie with the credential string \<^verbatim>\<open>CID,SEC,R1\<close>, against a server that
  answers \<^verbatim>\<open>{"access_token":"A1"}\<close>, returns the string \<^verbatim>\<open>A1\<close>.
\<close>

theorem round_trip:
  assumes "stdin s = ''CID'' # ''SEC'' # scope # code # rest"
    and "popen h
           [''curl'', ''-s'', ''--data'',
            ''code='' @ strip code @ ''&client_id=CID&client_secret=SEC''
              @ ''&redirect_uri=urn:ietf:wg:oauth:2.0:oob&grant_type=authorization_code'',
            ''https://accounts.google.com/o/oauth2/token'']
         = Inr ''{\"refresh_token\":\"R1\"}''"
    and "json_loads h = json_decode"
    and "environ h' DSAPICRED_ENV = Some ''CID,SEC,R1''"
    and "popen h'
           [''curl'', ''--data'',
            ''refresh_token=R1&client_id=CID&client_secret=SEC&grant_type=refresh_token'',
            ''https://accounts.google.com/o/oauth2/token'']
         = Inr ''{\"access_token\":\"A1\"}''"
    and "json_loads h' = json_decode"
  shows "fst (Login h s) = Inr ()
       \<and> suffix
           [Stdout ''Login successful.'',
            Stdout [],
            Stdout ''# DSAPI credentials: \"client_id,client_secret,refresh_token\"'',
            Stdout (''CID,'' @ [CHR 0x0A] @ ''SEC,'' @ [CHR 0x0A] @ ''R1''),
            Stdout []]
           (trace (snd (Login h s)))
       \<and> fst (GetAccessTokenOrDie h' opts s') = Inr (JString ''A1'')"
proof -
  have res: "fst (Login h s) = Inr ()"
    using assms(1-3)
    by (simp add: Login_def Let_def run_simps strip_CID strip_SEC
          py_str_def decode_refresh)
  have out: "suffix
           [Stdout ''Login successful.'',
            Stdout [],
            Stdout ''# DSAPI credentials: \"client_id,client_secret,refresh_token\"'',
            Stdout (''CID,'' @ [CHR 0x0A] @ ''SEC,'' @ [CHR 0x0A] @ ''R1''),
            Stdout []]
           (trace (snd (Login h s)))"
    using assms(1-3)
    by (intro suffix_by_rev)
       (simp add: Login_def Let_def run_simps strip_CID strip_SEC
          py_str_def decode_refresh)
  have tok: "fst (GetAccessTokenOrDie h' opts s') = Inr (JString ''A1'')"
    using assms(4-6)
    by (simp add: GetAccessTokenOrDie_def GetDSApiCredOrDie_found split_triple unpack3_def
          run_simps decode_access)
  from res out tok show ?thesis by blast
qed

theorem round_trip_witness:
  "fst (Login (stub_host None ''{\"refresh_token\":\"R1\"}'')
              (console [''CID'', ''SEC'', ''analytics'', ''4/xyz''])) = Inr ()
 \<and> suffix
     [Stdout ''Login successful.'',
      Stdout [],
      Stdout ''# DSAPI credentials: \"client_id,client_secret,refresh_token\"'',
      Stdout (''CID,'' @ [CHR 0x0A] @ ''SEC,'' @ [CHR 0x0A] @ ''R1''),
      Stdout []]
     (trace (snd (Login (stub_host None ''{\"refresh_token\":\"R1\"}'')
                        (console [''CID'', ''SEC'', ''analytics'', ''4/xyz'']))))
 \<and> fst (GetAccessTokenOrDie (stub_host (Some ''CID,SEC,R1'') ''{\"access_token\":\"A1\"}'')
           no_options (console [])) = Inr (JString ''A1'')"
  by (rule round_trip[where scope = "''analytics''" and code = "''4/xyz''" and rest = "[]"])
     (simp_all add: console_def stub_host_simps)

section \<open>Properties of every run\<close>

lemma trace_order_refl: "trace_order R \<Longrightarrow> R t t"
  unfolding trace_order_def by blast

lemma trace_order_trans: "trace_order R \<Longrightarrow> R t u \<Longrightarrow> R u v \<Longrightarrow> R t v"
  unfolding trace_order_def by blast

lemma trace_order_Stdout: "trace_order R \<Longrightarrow> R t (t @ [Stdout x])"
  unfolding trace_order_def by blast

lemma trace_order_Prompt: "trace_order R \<Longrightarrow> R t (t @ [Prompt p])"
  unfolding trace_order_def by blast

lemma trace_order_run:
  "trace_order R \<Longrightarrow>
   R t (t @ [Stdout (''running command: '' @ list_repr cmd), Stdout [], Exec cmd])"
  unfolding trace_order_def by blast

lemma obeys_ret: "trace_order R \<Longrightarrow> obeys R (ret x)"
  by (simp add: obeys_def ret_def trace_order_refl)

lemma obeys_raise: "trace_order R \<Longrightarrow> obeys R (raise e)"
  by (simp add: obeys_def raise_def trace_order_refl)

lemma obeys_lift: "trace_order R \<Longrightarrow> obeys R (lift r)"
  by (simp add: obeys_def lift_def trace_order_refl)

lemma obeys_print: "trace_order R \<Longrightarrow> obeys R (print x)"
  by (simp add: obeys_def print_def emit_def trace_order_Stdout)

lemma obeys_input: "trace_order R \<Longrightarrow> obeys R (input p)"
  by (simp add: obeys_def input_def trace_order_Prompt split: list.splits)

lemma obeys_RunCommand: "trace_order R \<Longrightarrow> obeys R (RunCommand h cmd)"
proof -
  assume R: "trace_order R"
  have "trace (snd (RunCommand h cmd s)) =
          trace s @ [Stdout (''running command: '' @ list_repr cmd), Stdout [], Exec cmd]"
    for s
    by (simp add: RunCommand_run)
  then show ?thesis
    unfolding obeys_def using trace_order_run[OF R] by metis
qed

lemma obeys_andThen:
  assumes "trace_order R" and "obeys R m" and "\<And>x. obeys R (k x)"
  shows "obeys R (andThen m k)"
proof -
  have "R (trace s) (trace (snd (andThen m k s)))" for s
  proof (cases "m s")
    case (Pair r s')
    have first: "R (trace s) (trace s')"
      using assms(2) Pair by (metis obeys_def snd_conv)
    show ?thesis
    proof (cases r)
      case (Inl e)
      with Pair first show ?thesis by (simp add: andThen_def)
    next
      case (Inr x)
      have "R (trace s') (trace (snd (k x s')))"
        using assms(3) by (simp add: obeys_def)
      with first have "R (trace s) (trace (snd (k x s')))"
        using assms(1) trace_order_trans by blast
      with Pair Inr show ?thesis by (simp add: andThen_def)
    qed
  qed
  then show ?thesis by (simp add: obeys_def)
qed

lemma obeys_if:
  "obeys R a \<Longrightarrow> obeys R b \<Longrightarrow> obeys R (if c then a else b)"
  by simp

lemma obeys_triple:
  "(\<And>a b c. obeys R (f a b c)) \<Longrightarrow> obeys R (case x of (a, b, c) \<Rightarrow> f a b c)"
  by (cases x) simp

lemmas obeys_intros =
  obeys_andThen obeys_ret obeys_raise obeys_lift obeys_print obeys_input
  obeys_RunCommand obeys_if obeys_triple

lemma obeys_GetDSApiCredOrDie: "trace_order R \<Longrightarrow> obeys R (GetDSApiCredOrDie h opts)"
  unfolding GetDSApiCredOrDie_def
  by (cases "environ h DSAPICRED_ENV") (simp_all add: obeys_intros)

lemma obeys_GetAccessTokenOrDie: "trace_order R \<Longrightarrow> obeys R (GetAccessTokenOrDie h opts)"
  unfolding GetAccessTokenOrDie_def
  by (intro obeys_intros obeys_GetDSApiCredOrDie)

lemma obeys_Logout: "trace_order R \<Longrightarrow> obeys R (Logout h opts)"
  unfolding Logout_def
  by (intro obeys_intros obeys_GetDSApiCredOrDie)

lemma obeys_Login: "trace_order R \<Longrightarrow> obeys R (Login h)"
  unfolding Login_def Let_def seq.simps
  by (intro obeys_intros)

lemma trace_order_prefix: "trace_order prefix"
  by (auto simp: trace_order_def)

lemma all_announced_step:
  "all_announced (t @ [Stdout x]) = all_announced t"
  "all_announced (t @ [Prompt p]) = all_announced t"
  "all_announced (t @ [HelpText]) = all_announced t"
  "all_announced (t @ [Stdout (''running command: '' @ list_repr cmd), Stdout [], Exec cmd])
     = all_announced t"
  by (simp_all add: all_announced_def)

lemma trace_order_announced: "trace_order (\<lambda>t u. all_announced t \<longrightarrow> all_announced u)"
  unfolding trace_order_def all_announced_step by blast

lemma reach_after_input:
  assumes "\<And>l. obeys prefix (k l)" and "trace s' = t @ xs" and "ev \<in> set xs"
  shows "\<exists>pre post. trace (snd (andThen (input p) k s')) = t @ pre @ ev # post"
proof -
  have "obeys prefix (andThen (input p) k)"
    using assms(1) by (intro obeys_andThen obeys_input trace_order_prefix)
  then have "prefix (trace s') (trace (snd (andThen (input p) k s')))"
    by (simp add: obeys_def)
  then obtain zs where zs: "trace (snd (andThen (input p) k s')) = trace s' @ zs"
    by (auto simp: prefix_def)
  obtain pre mid where "xs = pre @ ev # mid"
    using assms(3) by (meson split_list)
  with zs assms(2) have "trace (snd (andThen (input p) k s')) = t @ pre @ ev # (mid @ zs)"
    by simp
  then show ?thesis by blast
qed

text \<open>
  C7. Once the client id, the client secret and the scope have been read, Login prints
  the authorization URL: the base \<^verbatim>\<open>https://accounts.google.com/o/oauth2/auth\<close>, then
  \<^verbatim>\<open>scope\<close> as the escaped prefix \<^verbatim>\<open>https://www.googleapis.com/auth/\<close> followed by the
  scope as typed, \<^verbatim>\<open>redirect_uri\<close>, \<^verbatim>\<open>response_type\<close>, \<^verbatim>\<open>access_type\<close> and
  \<^verbatim>\<open>client_id\<close> with the client id as typed, in this order, whatever follows.
\<close>

theorem Login_authorization_url:
  assumes "stdin s = line1 # line2 # line3 # rest"
  shows "\<exists>pre post.
           trace (snd (Login h s)) =
             trace s @ pre @
             Stdout (''https://accounts.google.com/o/oauth2/auth''
                     @ ''?scope='' @ url_escape ''https://www.googleapis.com/auth/'' @ strip line3
                     @ ''&redirect_uri=urn:ietf:wg:oauth:2.0:oob''
                     @ ''&response_type=code''
                     @ ''&access_type=offline''
                     @ ''&client_id='' @ strip line1) # post"
  using assms
  unfolding Login_def Let_def seq.simps
  apply (simp add: run_simps url_escape_prefix)
  apply (rule reach_after_input)
    apply (rule obeys_intros trace_order_prefix)+
   apply simp
  apply simp
  done

theorem Login_authorization_url_witness:
  "\<exists>pre post.
     trace (snd (Login (stub_host None []) (console [''CID'', ''SEC'', ''analytics''])))
       = pre @ Stdout (''https://accounts.google.com/o/oauth2/auth''
                       @ ''?scope=https%3A%2F%2Fwww.googleapis.com%2Fauth%2Fanalytics''
                       @ ''&redirect_uri=urn:ietf:wg:oauth:2.0:oob''
                       @ ''&response_type=code&access_type=offline&client_id=CID'') # post"
proof -
  have inp: "stdin (console [''CID'', ''SEC'', ''analytics''])
               = ''CID'' # ''SEC'' # ''analytics'' # []"
    by (simp add: console_def)
  from Login_authorization_url[OF inp, of "stub_host None []"] show ?thesis
    by (simp add: console_def url_escape_prefix strip_CID strip_words)
qed

lemma announce_then:
  assumes "\<And>out. obeys prefix (k out)"
    and "line = ''running command: '' @ list_repr cmd"
  shows "sublist [Stdout line, Stdout [], Exec cmd]
           (trace (snd (andThen (RunCommand h cmd) k s')))"
proof -
  have "obeys prefix (andThen (RunCommand h cmd) (\<lambda>out. ret out))"
    by (intro obeys_andThen obeys_RunCommand obeys_ret trace_order_prefix)
  let ?s = "snd (RunCommand h cmd s')"
  have started: "trace ?s = trace s' @ [Stdout line, Stdout [], Exec cmd]"
    by (simp add: RunCommand_run assms(2))
  have "prefix (trace ?s) (trace (snd (andThen (RunCommand h cmd) k s')))"
  proof (cases "popen h cmd")
    case (Inl e)
    then show ?thesis by (simp add: andThen_def RunCommand_run)
  next
    case (Inr out)
    have "prefix (trace ?s) (trace (snd (k out ?s)))"
      using assms(1) by (simp add: obeys_def)
    with Inr show ?thesis by (simp add: andThen_def RunCommand_run)
  qed
  then obtain zs where "trace (snd (andThen (RunCommand h cmd) k s'))
                          = trace s' @ [Stdout line, Stdout [], Exec cmd] @ zs"
    using started by (auto simp: prefix_def)
  then show ?thesis
    by (metis sublist_appendI)
qed

lemma Login_starts_exchange:
  assumes "stdin s = line1 # line2 # line3 # line4 # rest"
  shows "sublist
           [Stdout (''running command: '' @ list_repr
              [''curl'', ''-s'', ''--data'',
               ''code='' @ strip line4 @ ''&client_id='' @ strip line1
                 @ ''&client_secret='' @ strip line2
                 @ ''&redirect_uri=urn:ietf:wg:oauth:2.0:oob&grant_type=authorization_code'',
               ''https://accounts.google.com/o/oauth2/token'']),
            Stdout [],
            Exec
              [''curl'', ''-s'', ''--data'',
               ''code='' @ strip line4 @ ''&client_id='' @ strip line1
                 @ ''&client_secret='' @ strip line2
                 @ ''&redirect_uri=urn:ietf:wg:oauth:2.0:oob&grant_type=authorization_code'',
               ''https://accounts.google.com/o/oauth2/token'']]
           (trace (snd (Login h s)))"
  using assms
  unfolding Login_def Let_def seq.simps
  apply (simp add: andThen_ret andThen_print andThen_input andThen_assoc)
  apply (rule announce_then)
   apply (rule obeys_intros trace_order_prefix)+
  apply simp
  done

lemma GetAccessTokenOrDie_starts_refresh:
  assumes "environ h DSAPICRED_ENV = Some v"
    and "strip v = a @ '','' @ b @ '','' @ c"
    and "CHR '','' \<notin> set a" and "CHR '','' \<notin> set b" and "CHR '','' \<notin> set c"
  shows "sublist
           [Stdout (''running command: '' @ list_repr
              [''curl'', ''--data'',
               ''refresh_token='' @ c @ ''&client_id='' @ a @ ''&client_secret='' @ b
                 @ ''&grant_type=refresh_token'',
               ''https://accounts.google.com/o/oauth2/token'']),
            Stdout [],
            Exec
              [''curl'', ''--data'',
               ''refresh_token='' @ c @ ''&client_id='' @ a @ ''&client_secret='' @ b
                 @ ''&grant_type=refresh_token'',
               ''https://accounts.google.com/o/oauth2/token'']]
           (trace (snd (GetAccessTokenOrDie h opts s)))"
proof -
  have fields: "split_on CHR '','' (strip v) = [a, b, c]"
    using assms(2-5) split_on_three[of "CHR '',''" a b c] by simp
  show ?thesis
    using assms(1)
    by (simp add: GetAccessTokenOrDie_def GetDSApiCredOrDie_found fields unpack3_def
          run_simps split: sum.splits)
qed

lemma Logout_starts_revoke:
  assumes "environ h DSAPICRED_ENV = Some v"
    and "strip v = a @ '','' @ b @ '','' @ c"
    and "CHR '','' \<notin> set a" and "CHR '','' \<notin> set b" and "CHR '','' \<notin> set c"
  shows "sublist
           [Stdout (''running command: '' @ list_repr
              [''curl'', ''https://accounts.google.com/o/oauth2/revoke?token='' @ c]),
            Stdout [],
            Exec [''curl'', ''https://accounts.google.com/o/oauth2/revoke?token='' @ c]]
           (trace (snd (Logout h opts s)))"
proof -
  have fields: "split_on CHR '','' (strip v) = [a, b, c]"
    using assms(2-5) split_on_three[of "CHR '',''" a b c] by simp
  show ?thesis
    using assms(1)
    by (simp add: Logout_def GetDSApiCredOrDie_found fields unpack3_def run_simps
          split: sum.splits)
qed

text \<open>
  C9. RunCommand prints \<^verbatim>\<open>running command: \<close> with the rendering of the whole argument
  list, and an empty line, before it starts the command; an argument of plain characters
  stands in that line as it is. In every run of Login, GetAccessTokenOrDie and Logout
  each started command comes right after the print of its own command line. And the
  commands are started: once four lines have been read, the trace of Login holds the
  print of the \<^verbatim>\<open>curl\<close> command line with the code, the client id and the client secret,
  and then its start; with a credential string \<^verbatim>\<open>A,B,C\<close> the traces of
  GetAccessTokenOrDie and Logout hold the print of the command line with the refresh
  token (and, for the first, the client id and the client secret), and then its start.
\<close>

theorem RunCommand_announces:
  assumes "all_announced (trace s)"
  shows "RunCommand h cmd s =
           (popen h cmd,
            s\<lparr>trace := trace s @
               [Stdout (''running command: '' @ list_repr cmd), Stdout [], Exec cmd]\<rparr>)
       \<and> (\<forall>arg \<in> set cmd. list_all is_plain arg \<longrightarrow>
            sublist arg (''running command: '' @ list_repr cmd))
       \<and> all_announced (trace (snd (Login h s)))
       \<and> all_announced (trace (snd (GetAccessTokenOrDie h opts s)))
       \<and> all_announced (trace (snd (Logout h opts s)))
       \<and> (stdin s = line1 # line2 # line3 # line4 # rest \<longrightarrow>
            sublist
              [Stdout (''running command: '' @ list_repr
                 [''curl'', ''-s'', ''--data'',
                  ''code='' @ strip line4 @ ''&client_id='' @ strip line1
                    @ ''&client_secret='' @ strip line2
                    @ ''&redirect_uri=urn:ietf:wg:oauth:2.0:oob&grant_type=authorization_code'',
                  ''https://accounts.google.com/o/oauth2/token'']),
               Stdout [],
               Exec
                 [''curl'', ''-s'', ''--data'',
                  ''code='' @ strip line4 @ ''&client_id='' @ strip line1
                    @ ''&client_secret='' @ strip line2
                    @ ''&redirect_uri=urn:ietf:wg:oauth:2.0:oob&grant_type=authorization_code'',
                  ''https://accounts.google.com/o/oauth2/token'']]
              (trace (snd (Login h s))))
       \<and> (environ h DSAPICRED_ENV = Some v \<and> strip v = a @ '','' @ b @ '','' @ c
          \<and> CHR '','' \<notin> set a \<and> CHR '','' \<notin> set b \<and> CHR '','' \<notin> set c \<longrightarrow>
            sublist
              [Stdout (''running command: '' @ list_repr
                 [''curl'', ''--data'',
                  ''refresh_token='' @ c @ ''&client_id='' @ a @ ''&client_secret='' @ b
                    @ ''&grant_type=refresh_token'',
                  ''https://accounts.google.com/o/oauth2/token'']),
               Stdout [],
               Exec
                 [''curl'', ''--data'',
                  ''refresh_token='' @ c @ ''&client_id='' @ a @ ''&client_secret='' @ b
                    @ ''&grant_type=refresh_token'',
                  ''https://accounts.google.com/o/oauth2/token'']]
              (trace (snd (GetAccessTokenOrDie h opts s)))
          \<and> sublist
              [Stdout (''running command: '' @ list_repr
                 [''curl'', ''https://accounts.google.com/o/oauth2/revoke?token='' @ c]),
               Stdout [],
               Exec [''curl'', ''https://accounts.google.com/o/oauth2/revoke?token='' @ c]]
              (trace (snd (Logout h opts s))))"
proof -
  let ?R = "\<lambda>t u. all_announced t \<longrightarrow> all_announced u"
  have "obeys ?R (Login h)"
    "obeys ?R (GetAccessTokenOrDie h opts)" "obeys ?R (Logout h opts)"
    by (rule obeys_Login obeys_GetAccessTokenOrDie obeys_Logout,
        rule trace_order_announced)+
  then have safe: "all_announced (trace (snd (Login h s)))"
    "all_announced (trace (snd (GetAccessTokenOrDie h opts s)))"
    "all_announced (trace (snd (Logout h opts s)))"
    using assms unfolding obeys_def by blast+
  have args: "\<forall>arg \<in> set cmd. list_all is_plain arg \<longrightarrow>
                sublist arg (''running command: '' @ list_repr cmd)"
    using printed_argument[of _ cmd] by blast
  have login_run: "stdin s = line1 # line2 # line3 # line4 # rest \<longrightarrow>
            sublist
              [Stdout (''running command: '' @ list_repr
                 [''curl'', ''-s'', ''--data'',
                  ''code='' @ strip line4 @ ''&client_id='' @ strip line1
                    @ ''&client_secret='' @ strip line2
                    @ ''&redirect_uri=urn:ietf:wg:oauth:2.0:oob&grant_type=authorization_code'',
                  ''https://accounts.google.com/o/oauth2/token'']),
               Stdout [],
               Exec
                 [''curl'', ''-s'', ''--data'',
                  ''code='' @ strip line4 @ ''&client_id='' @ strip line1
                    @ ''&client_secret='' @ strip line2
                    @ ''&redirect_uri=urn:ietf:wg:oauth:2.0:oob&grant_type=authorization_code'',
                  ''https://accounts.google.com/o/oauth2/token'']]
              (trace (snd (Login h s)))"
    by (rule impI) (rule Login_starts_exchange)
  have cred_runs: "environ h DSAPICRED_ENV = Some v \<and> strip v = a @ '','' @ b @ '','' @ c
          \<and> CHR '','' \<notin> set a \<and> CHR '','' \<notin> set b \<and> CHR '','' \<notin> set c \<longrightarrow>
            sublist
              [Stdout (''running command: '' @ list_repr
                 [''curl'', ''--data'',
                  ''refresh_token='' @ c @ ''&client_id='' @ a @ ''&client_secret='' @ b
                    @ ''&grant_type=refresh_token'',
                  ''https://accounts.google.com/o/oauth2/token'']),
               Stdout [],
               Exec
                 [''curl'', ''--data'',
                  ''refresh_token='' @ c @ ''&client_id='' @ a @ ''&client_secret='' @ b
                    @ ''&grant_type=refresh_token'',
                  ''https://accounts.google.com/o/oauth2/token'']]
              (trace (snd (GetAccessTokenOrDie h opts s)))
          \<and> sublist
              [Stdout (''running command: '' @ list_repr
                 [''curl'', ''https://accounts.google.com/o/oauth2/revoke?token='' @ c]),
               Stdout [],
               Exec [''curl'', ''https://accounts.google.com/o/oauth2/revoke?token='' @ c]]
              (trace (snd (Logout h opts s)))"
  proof (rule impI)
    assume H: "environ h DSAPICRED_ENV = Some v \<and> strip v = a @ '','' @ b @ '','' @ c
          \<and> CHR '','' \<notin> set a \<and> CHR '','' \<notin> set b \<and> CHR '','' \<notin> set c"
    then have e: "environ h DSAPICRED_ENV = Some v"
      and f: "strip v = a @ '','' @ b @ '','' @ c"
      and ca: "CHR '','' \<notin> set a" and cb: "CHR '','' \<notin> set b" and cc: "CHR '','' \<notin> set c"
      by blast+
    show "sublist
              [Stdout (''running command: '' @ list_repr
                 [''curl'', ''--data'',
                  ''refresh_token='' @ c @ ''&client_id='' @ a @ ''&client_secret='' @ b
                    @ ''&grant_type=refresh_token'',
                  ''https://accounts.google.com/o/oauth2/token'']),
               Stdout [],
               Exec
                 [''curl'', ''--data'',
                  ''refresh_token='' @ c @ ''&client_id='' @ a @ ''&client_secret='' @ b
                    @ ''&grant_type=refresh_token'',
                  ''https://accounts.google.com/o/oauth2/token'']]
              (trace (snd (GetAccessTokenOrDie h opts s)))
          \<and> sublist
              [Stdout (''running command: '' @ list_repr
                 [''curl'', ''https://accounts.google.com/o/oauth2/revoke?token='' @ c]),
               Stdout [],
               Exec [''curl'', ''https://accounts.google.com/o/oauth2/revoke?token='' @ c]]
              (trace (snd (Logout h opts s)))"
      by (rule conjI)
         (rule GetAccessTokenOrDie_starts_refresh[OF e f ca cb cc],
          rule Logout_starts_revoke[OF e f ca cb cc])
  qed
  from RunCommand_run[of h cmd s] args safe login_run cred_runs show ?thesis
    by blast
qed

text \<open>
  With the lines \<^verbatim>\<open>CID\<close>, \<^verbatim>\<open>SEC\<close>, \<^verbatim>\<open>analytics\<close>, \<^verbatim>\<open>CODE\<close> and the credential string
  \<^verbatim>\<open>CID,SEC,R1\<close>: the three command lines are printed and started, and the data of the
  code exchange stands in its printed line as it is.
\<close>

theorem RunCommand_announces_witness:
  "sublist
     [Stdout (''running command: '' @ list_repr
        [''curl'', ''-s'', ''--data'',
         ''code=CODE&client_id=CID&client_secret=SEC&redirect_uri=urn:ietf:wg:oauth:2.0:oob&grant_type=authorization_code'',
         ''https://accounts.google.com/o/oauth2/token'']),
      Stdout [],
      Exec
        [''curl'', ''-s'', ''--data'',
         ''code=CODE&client_id=CID&client_secret=SEC&redirect_uri=urn:ietf:wg:oauth:2.0:oob&grant_type=authorization_code'',
         ''https://accounts.google.com/o/oauth2/token'']]
     (trace (snd (Login (stub_host (Some ''CID,SEC,R1'') [])
                        (console [''CID'', ''SEC'', ''analytics'', ''CODE'']))))
 \<and> sublist
     ''code=CODE&client_id=CID&client_secret=SEC&redirect_uri=urn:ietf:wg:oauth:2.0:oob&grant_type=authorization_code''
     (''running command: '' @ list_repr
        [''curl'', ''-s'', ''--data'',
         ''code=CODE&client_id=CID&client_secret=SEC&redirect_uri=urn:ietf:wg:oauth:2.0:oob&grant_type=authorization_code'',
         ''https://accounts.google.com/o/oauth2/token''])
 \<and> sublist
     [Stdout (''running command: '' @ list_repr
        [''curl'', ''--data'',
         ''refresh_token=R1&client_id=CID&client_secret=SEC&grant_type=refresh_token'',
         ''https://accounts.google.com/o/oauth2/token'']),
      Stdout [],
      Exec
        [''curl'', ''--data'',
         ''refresh_token=R1&client_id=CID&client_secret=SEC&grant_type=refresh_token'',
         ''https://accounts.google.com/o/oauth2/token'']]
     (trace (snd (GetAccessTokenOrDie (stub_host (Some ''CID,SEC,R1'') []) no_options
                    (console [''CID'', ''SEC'', ''analytics'', ''CODE'']))))
 \<and> sublist
     [Stdout (''running command: '' @ list_repr
        [''curl'', ''https://accounts.google.com/o/oauth2/revoke?token=R1'']),
      Stdout [],
      Exec [''curl'', ''https://accounts.google.com/o/oauth2/revoke?token=R1'']]
     (trace (snd (Logout (stub_host (Some ''CID,SEC,R1'') []) no_options
                    (console [''CID'', ''SEC'', ''analytics'', ''CODE'']))))
 \<and> all_announced
     (trace (snd (Login (stub_host (Some ''CID,SEC,R1'') [])
                        (console [''CID'', ''SEC'', ''analytics'', ''CODE'']))))
 \<and> all_announced
     (trace (snd (GetAccessTokenOrDie (stub_host (Some ''CID,SEC,R1'') []) no_options
                    (console [''CID'', ''SEC'', ''analytics'', ''CODE'']))))
 \<and> all_announced
     (trace (snd (Logout (stub_host (Some ''CID,SEC,R1'') []) no_options
                    (console [''CID'', ''SEC'', ''analytics'', ''CODE'']))))"
proof -
  let ?s = "console [''CID'', ''SEC'', ''analytics'', ''CODE'']"
  let ?h = "stub_host (Some ''CID,SEC,R1'') []"
  let ?data = "''code=CODE&client_id=CID&client_secret=SEC&redirect_uri=urn:ietf:wg:oauth:2.0:oob&grant_type=authorization_code''"
  have start: "all_announced (trace ?s)"
    by (simp add: console_def all_announced_def)
  have inp: "stdin ?s = ''CID'' # ''SEC'' # ''analytics'' # ''CODE'' # []"
    by (simp add: console_def)
  have env: "environ ?h DSAPICRED_ENV = Some ''CID,SEC,R1''"
    by (simp add: stub_host_simps)
  have form: "strip ''CID,SEC,R1'' = ''CID'' @ '','' @ ''SEC'' @ '','' @ ''R1''"
    by (simp add: strip_triple)
  have commas: "CHR '','' \<notin> set ''CID''" "CHR '','' \<notin> set ''SEC''" "CHR '','' \<notin> set ''R1''"
    by simp_all
  have plain: "list_all is_plain ?data"
    by code_simp
  from RunCommand_announces[OF start,
      of ?h "[''curl'', ''-s'', ''--data'', ?data, ''https://accounts.google.com/o/oauth2/token'']"
         no_options "''CID''" "''SEC''" "''analytics''" "''CODE''" "[]"
         "''CID,SEC,R1''" "''CID''" "''SEC''" "''R1''"]
    inp env form commas plain
  show ?thesis
    by (simp add: strip_CID strip_SEC strip_words)
qed

section \<open>The entry point\<close>

lemma match_long_opt_login: "match_long_opt ''--login'' = Some ''--login''"
  and match_long_opt_logout: "match_long_opt ''--logout'' = Some ''--logout''"
  by (simp_all add: match_long_opt_def long_opts_def)

lemma process_args_positional:
  "positional arg \<Longrightarrow> process_args (arg # rargs) vals = process_args rargs vals"
proof -
  assume p: "positional arg"
  have "arg \<noteq> ''--''" using p by (auto simp: positional_def)
  moreover have "take 2 arg \<noteq> ''--''"
    using p by (cases arg) (auto simp: positional_def take_Suc_conv_app_nth split: list.splits)
  moreover have "\<not> (take 1 arg = ''-'' \<and> 1 < length arg)"
    using p by (auto simp: positional_def)
  ultimately show ?thesis by auto
qed

lemma process_args_login:
  "process_args (''--login'' # rargs) vals = process_args rargs (vals\<lparr>login := True\<rparr>)"
  by (simp add: match_long_opt_login)

lemma process_args_logout:
  "process_args (''--logout'' # rargs) vals = process_args rargs (vals\<lparr>logout := True\<rparr>)"
  by (simp add: match_long_opt_logout)

lemma process_args_flags:
  assumes "list_all (\<lambda>arg. arg = ''--login'' \<or> arg = ''--logout'' \<or> positional arg) argv"
  shows "process_args argv vals s =
           (Inr \<lparr>login = login vals \<or> ''--login'' \<in> set argv,
                 logout = logout vals \<or> ''--logout'' \<in> set argv\<rparr>, s)"
  using assms
proof (induction argv arbitrary: vals)
  case Nil
  then show ?case by (simp add: ret_def)
next
  case (Cons arg rargs)
  then have rest: "list_all (\<lambda>arg. arg = ''--login'' \<or> arg = ''--logout'' \<or> positional arg) rargs"
    and this_arg: "arg = ''--login'' \<or> arg = ''--logout'' \<or> positional arg"
    by simp_all
  from this_arg consider "arg = ''--login''" | "arg = ''--logout''"
    | "positional arg" "arg \<noteq> ''--login''" "arg \<noteq> ''--logout''"
    by blast
  then show ?case
  proof cases
    case 1
    then show ?thesis
      using Cons.IH[OF rest, of "vals\<lparr>login := True\<rparr>"]
      by (simp only: process_args_login) auto
  next
    case 2
    then show ?thesis
      using Cons.IH[OF rest, of "vals\<lparr>logout := True\<rparr>"]
      by (simp only: process_args_logout) auto
  next
    case 3
    then show ?thesis
      using Cons.IH[OF rest, of vals]
      by (simp only: process_args_positional) auto
  qed
qed

text \<open>
  C8. On a command line of \<^verbatim>\<open>--login\<close>, \<^verbatim>\<open>--logout\<close> and arguments that start no
  option, Main runs Login when \<^verbatim>\<open>--login\<close> is there, also beside \<^verbatim>\<open>--logout\<close>; it runs
  Logout when only \<^verbatim>\<open>--logout\<close> is there; with neither it prints the help text and
  returns, which ends the process with status 0.
\<close>

theorem Main_dispatch:
  assumes "list_all (\<lambda>arg. arg = ''--login'' \<or> arg = ''--logout'' \<or> positional arg) argv"
  shows "Main h argv s =
           (if ''--login'' \<in> set argv then Login h s
            else if ''--logout'' \<in> set argv then Logout h \<lparr>login = False, logout = True\<rparr> s
            else (Inr (), s\<lparr>trace := trace s @ [HelpText]\<rparr>))
       \<and> (''--login'' \<notin> set argv \<and> ''--logout'' \<notin> set argv \<longrightarrow>
            exit_status (fst (Main h argv s)) = 0)"
proof -
  have "parse_args argv s =
          (Inr \<lparr>login = ''--login'' \<in> set argv, logout = ''--logout'' \<in> set argv\<rparr>, s)"
    using process_args_flags[OF assms, of "\<lparr>login = False, logout = False\<rparr>" s]
    by (simp add: parse_args_def)
  then show ?thesis
    by (simp add: Main_def andThen_def emit_def exit_status_def)
qed

theorem Main_dispatch_witness:
  "Main (stub_host None []) [''prog'', ''--logout'', ''--login''] (console [])
     = Login (stub_host None []) (console [])
 \<and> Main (stub_host None []) [''prog'', ''--logout''] (console [])
     = Logout (stub_host None []) \<lparr>login = False, logout = True\<rparr> (console [])
 \<and> Main (stub_host None []) [''prog''] (console [])
     = (Inr (), \<lparr>stdin = [], trace = [HelpText]\<rparr>)
 \<and> exit_status (fst (Main (stub_host None []) [''prog''] (console []))) = 0"
proof -
  have a1: "list_all (\<lambda>arg. arg = ''--login'' \<or> arg = ''--logout'' \<or> positional arg)
              [''prog'', ''--logout'', ''--login'']"
    and a2: "list_all (\<lambda>arg. arg = ''--login'' \<or> arg = ''--logout'' \<or> positional arg)
              [''prog'', ''--logout'']"
    and a3: "list_all (\<lambda>arg. arg = ''--login'' \<or> arg = ''--logout'' \<or> positional arg)
              [''prog'']"
    by (simp_all add: positional_def)
  from Main_dispatch[OF a1, of "stub_host None []" "console []"]
       Main_dispatch[OF a2, of "stub_host None []" "console []"]
       Main_dispatch[OF a3, of "stub_host None []" "console []"]
  show ?thesis
    by (simp add: console_def exit_status_def)
qed

end
